theory Spec2Isabelle
  imports Complex_Main
begin

section \<open>Circuits of the Hamiltonian simulation kernel\<close>

text \<open>
  The kernel (hamiltonian\_simulation\_kernel.py) builds circuits with Qiskit. A circuit is
  the ordered list of the operations that were appended to it. The two-qubit coupling
  primitives are small circuits over a register of two qubits, made of standard gates only;
  the kernel appends them to the main circuit as instructions on a list of qubits.
  Rotation angles are Python floats; they are modelled as reals.
\<close>

datatype gate =
    HGate nat
  | XGate nat
  | ZGate nat
  | SGate nat
  | SdgGate nat
  | RXGate real nat
  | RYGate real nat
  | RZGate real nat
  | CXGate nat nat
  | Barrier

datatype op =
    Prim gate
  | Instr "gate list" "nat list"

type_synonym circuit = "op list"

datatype error = IndexError | ZeroDivisionError | AttributeError

text \<open>
  A builder that raises returns the exception together with the local circuit as it was
  when the exception left the builder.
\<close>

type_synonym 'a raising = "(error \<times> circuit) + 'a"

definition then_do :: "'a raising \<Rightarrow> ('a \<Rightarrow> 'b raising) \<Rightarrow> 'b raising" where
  "then_do r f = (case r of Inl e \<Rightarrow> Inl e | Inr v \<Rightarrow> f v)"

fun for_each :: "'a list \<Rightarrow> ('a \<Rightarrow> circuit \<Rightarrow> circuit raising) \<Rightarrow> circuit \<Rightarrow> circuit raising" where
  "for_each [] body qc = Inr qc"
| "for_each (x # xs) body qc = then_do (body x qc) (for_each xs body)"

text \<open>Python's \<open>range(start, stop, step)\<close> for a positive step and natural bounds.\<close>

definition py_range :: "nat \<Rightarrow> nat \<Rightarrow> nat \<Rightarrow> nat list" where
  "py_range start stop step =
     map (\<lambda>m. start + step * m) [0..<(stop + step - 1 - start) div step]"

text \<open>Python's \<open>xs[i]\<close>: a negative index counts from the end, anything else out of range raises.\<close>

definition py_get :: "'a list \<Rightarrow> int \<Rightarrow> error + 'a" where
  "py_get xs i =
     (if 0 \<le> i \<and> i < int (length xs) then Inr (xs ! nat i)
      else if - int (length xs) \<le> i \<and> i < 0 then Inr (xs ! nat (i + int (length xs)))
      else Inl IndexError)"

definition lookup :: "'a list \<Rightarrow> int \<Rightarrow> circuit \<Rightarrow> 'a raising" where
  "lookup xs i qc = (case py_get xs i of Inl e \<Rightarrow> Inl (e, qc) | Inr v \<Rightarrow> Inr v)"

subsection \<open>The kernel object\<close>

text \<open>
  The fields of \<open>HamiltonianKernel\<close> that the builders read. The field \<open>h\<close> is the attribute
  that only \<open>TfimHamiltonianKernel.create_hamiltonian\<close> sets; it is absent before.
  \<open>n_spins\<close> and \<open>K\<close> are natural numbers: the register constructor rejects a negative size.
\<close>

record kernel =
  n_spins :: nat
  K :: nat
  t :: real
  tau :: real
  w :: real
  h_x :: "real list"
  h_z :: "real list"
  use_XX_YY_ZZ_gates :: bool
  h :: "real option"

text \<open>The constructor computes \<open>tau = t / K\<close>, which raises for \<open>K = 0\<close>.\<close>

definition init :: "nat \<Rightarrow> nat \<Rightarrow> real \<Rightarrow> real \<Rightarrow> real list \<Rightarrow> real list \<Rightarrow> bool \<Rightarrow> error + kernel" where
  "init n steps time wv hx hz use_gates =
     (if steps = 0 then Inl ZeroDivisionError
      else Inr \<lparr> n_spins = n, K = steps, t = time, tau = time / real steps, w = wv,
                 h_x = hx, h_z = hz, use_XX_YY_ZZ_gates = use_gates, h = None \<rparr>)"

subsection \<open>Gate primitives\<close>

definition xx_gate :: "real \<Rightarrow> gate list" where
  "xx_gate ta =
     [HGate 0, HGate 1, CXGate 0 1, RZGate (pi * ta) 1, CXGate 0 1, HGate 0, HGate 1]"

definition yy_gate :: "real \<Rightarrow> gate list" where
  "yy_gate ta =
     [SGate 0, SGate 1, HGate 0, HGate 1, CXGate 0 1, RZGate (pi * ta) 1, CXGate 0 1,
      HGate 0, HGate 1, SdgGate 0, SdgGate 1]"

definition zz_gate :: "real \<Rightarrow> gate list" where
  "zz_gate ta = [CXGate 0 1, RZGate (pi * ta) 1, CXGate 0 1]"

definition xxyyzz_opt_gate :: "real \<Rightarrow> gate list" where
  "xxyyzz_opt_gate ta =
     (let alpha = ta; beta = ta; gamma = ta in
      [RZGate (pi / 2) 1,
       CXGate 1 0,
       RZGate (pi * gamma - pi / 2) 0,
       RYGate (pi / 2 - pi * alpha) 1,
       CXGate 0 1,
       RYGate (pi * beta - pi / 2) 1,
       CXGate 1 0,
       RZGate (- pi / 2) 0])"

definition xx_gate_mirror :: "real \<Rightarrow> gate list" where
  "xx_gate_mirror ta =
     [HGate 0, HGate 1, CXGate 0 1, RZGate (- pi * ta) 1, CXGate 0 1, HGate 0, HGate 1]"

definition yy_gate_mirror :: "real \<Rightarrow> gate list" where
  "yy_gate_mirror ta =
     [SGate 0, SGate 1, HGate 0, HGate 1, CXGate 0 1, RZGate (- pi * ta) 1, CXGate 0 1,
      HGate 0, HGate 1, SdgGate 0, SdgGate 1]"

definition zz_gate_mirror :: "real \<Rightarrow> gate list" where
  "zz_gate_mirror ta = [CXGate 0 1, RZGate (- pi * ta) 1, CXGate 0 1]"

definition xxyyzz_opt_gate_mirror :: "real \<Rightarrow> gate list" where
  "xxyyzz_opt_gate_mirror ta =
     (let alpha = ta; beta = ta; gamma = ta in
      [RZGate (pi / 2) 0,
       CXGate 1 0,
       RYGate (- pi * beta + pi / 2) 1,
       CXGate 0 1,
       RYGate (- pi / 2 + pi * alpha) 1,
       RZGate (- pi * gamma + pi / 2) 0,
       CXGate 1 0,
       RZGate (- pi / 2) 1])"

definition xxyyzz_opt_gate_quasi_mirror :: "real \<Rightarrow> string \<Rightarrow> string \<Rightarrow> gate list" where
  "xxyyzz_opt_gate_quasi_mirror ta pauli1 pauli2 =
     (let alpha = ta; beta = ta; gamma = ta in
      (if pauli1 = ''x'' then [HGate 0, ZGate 0, RXGate (pi / 2) 0, HGate 0] else []) @
      (if pauli1 = ''z'' then [HGate 0, XGate 0, RXGate (pi / 2) 0, HGate 0] else []) @
      (if pauli2 = ''x'' then [XGate 1] else []) @
      (if pauli2 = ''z'' then [ZGate 1] else []) @
      [CXGate 1 0,
       RYGate (- pi * beta + pi / 2) 1,
       CXGate 0 1,
       RYGate (- pi / 2 + pi * alpha) 1,
       RZGate (- pi * gamma + pi / 2) 0,
       CXGate 1 0,
       RZGate (- pi / 2) 1])"

subsection \<open>The base class\<close>

text \<open>
  \<open>random_paulis_list\<close> draws one of the two strings per qubit with \<open>np.random.choice\<close>.
  The draws are a parameter: \<open>draws i\<close> tells whether the \<open>i\<close>-th draw picked \<open>"x"\<close>.
\<close>

definition np_random_choice :: "bool \<Rightarrow> string" where
  "np_random_choice picked_first = (if picked_first then ''x'' else ''z'')"

definition random_paulis_list :: "kernel \<Rightarrow> (nat \<Rightarrow> bool) \<Rightarrow> string list" where
  "random_paulis_list kn draws =
     concat (map (\<lambda>i. let g = np_random_choice (draws i) in
                        (if g = ''x'' then [''x''] else []) @ (if g = ''z'' then [''z''] else []))
                 [0..<n_spins kn])"

definition ResultantPauli :: "kernel \<Rightarrow> gate list" where
  "ResultantPauli kn = map XGate [0..<n_spins kn] @ [Barrier]"

subsection \<open>The coupling loops\<close>

text \<open>
  \<open>for j in range(2): for i in range(j % 2, n_spins - 1, 2): qc.append(g, [qr[i], qr[(i + 1) % n_spins]])\<close>
  and the same loops with both ranges reversed. For \<open>n_spins = 0\<close> the stop \<open>-1\<close> and the
  truncated stop \<open>0\<close> give the same empty ranges.
\<close>

definition coupling_loop :: "nat \<Rightarrow> gate list \<Rightarrow> circuit" where
  "coupling_loop n g =
     concat (map (\<lambda>j. map (\<lambda>i. Instr g [i, (i + 1) mod n]) (py_range (j mod 2) (n - 1) 2))
                 [0, 1])"

definition coupling_loop_reversed :: "nat \<Rightarrow> gate list \<Rightarrow> circuit" where
  "coupling_loop_reversed n g =
     concat (map (\<lambda>j. map (\<lambda>i. Instr g [i, (i + 1) mod n]) (rev (py_range (j mod 2) (n - 1) 2)))
                 (rev [0, 1]))"

text \<open>
  The list comprehensions of local-field rotations: one rotation per qubit, its angle read
  from the field array, which raises when the array is too short.
\<close>

definition local_rotations ::
  "(real \<Rightarrow> nat \<Rightarrow> gate) \<Rightarrow> real \<Rightarrow> real list \<Rightarrow> nat \<Rightarrow> circuit \<Rightarrow> circuit raising" where
  "local_rotations rot c fld n qc0 =
     for_each [0..<n]
       (\<lambda>i qc. then_do (lookup fld (int i) qc) (\<lambda>v. Inr (qc @ [Prim (rot (c * v) i)]))) qc0"

subsection \<open>HeisenbergHamiltonianKernel\<close>

definition heisenberg_create_hamiltonian :: "kernel \<Rightarrow> circuit raising" where
  "heisenberg_create_hamiltonian kn =
     for_each [0..<K kn]
       (\<lambda>k qc.
          then_do (local_rotations RXGate (2 * tau kn * w kn) (h_x kn) (n_spins kn) qc) (\<lambda>qc.
          then_do (local_rotations RZGate (2 * tau kn * w kn) (h_z kn) (n_spins kn) qc) (\<lambda>qc.
          Inr (qc @ [Prim Barrier] @
               (if use_XX_YY_ZZ_gates kn
                then coupling_loop (n_spins kn) (xx_gate (tau kn)) @
                     coupling_loop (n_spins kn) (yy_gate (tau kn)) @
                     coupling_loop (n_spins kn) (zz_gate (tau kn))
                else coupling_loop (n_spins kn) (xxyyzz_opt_gate (tau kn))) @
               [Prim Barrier]))))
       []"

definition heisenberg_create_inverse_hamiltonian :: "kernel \<Rightarrow> circuit raising" where
  "heisenberg_create_inverse_hamiltonian kn =
     for_each [0..<K kn]
       (\<lambda>k qc.
          (let qc = qc @
               (if use_XX_YY_ZZ_gates kn
                then coupling_loop (n_spins kn) (zz_gate_mirror (tau kn)) @
                     coupling_loop_reversed (n_spins kn) (yy_gate_mirror (tau kn)) @
                     coupling_loop (n_spins kn) (xx_gate_mirror (tau kn))
                else coupling_loop_reversed (n_spins kn) (xxyyzz_opt_gate_mirror (tau kn))) @
               [Prim Barrier]
           in
          then_do (local_rotations RZGate (- 2 * tau kn * w kn) (h_z kn) (n_spins kn) qc) (\<lambda>qc.
          then_do (local_rotations RXGate (- 2 * tau kn * w kn) (h_x kn) (n_spins kn) qc) (\<lambda>qc.
          Inr (qc @ [Prim Barrier])))))
       []"

text \<open>The twirl gates that open the quasi-inverse: \<open>x\<close> for the tag \<open>"x"\<close>, \<open>z\<close> otherwise.\<close>

definition twirl_gates :: "string list \<Rightarrow> circuit" where
  "twirl_gates pauli_list =
     map (\<lambda>(i, g). if g = ''x'' then Prim (XGate i) else Prim (ZGate i))
         (zip [0..<length pauli_list] pauli_list)"

text \<open>\<open>if pauli_list[q] == "x": qc.x(qr[q])\<close> then \<open>if pauli_list[q] == "z": qc.z(qr[q])\<close>.\<close>

definition track_pauli :: "string list \<Rightarrow> int \<Rightarrow> circuit \<Rightarrow> circuit raising" where
  "track_pauli pauli_list q qc0 =
     then_do (lookup pauli_list q qc0) (\<lambda>g.
       let qc = (if g = ''x'' then qc0 @ [Prim (XGate (nat q))] else qc0) in
       then_do (lookup pauli_list q qc) (\<lambda>g.
         Inr (if g = ''z'' then qc @ [Prim (ZGate (nat q))] else qc)))"

definition boundary_twirl :: "kernel \<Rightarrow> string list \<Rightarrow> circuit \<Rightarrow> circuit raising" where
  "boundary_twirl kn pauli_list qc0 =
     then_do (if n_spins kn mod 2 = 1 then track_pauli pauli_list 0 qc0 else Inr qc0) (\<lambda>qc.
       if n_spins kn mod 2 = 0
       then then_do (track_pauli pauli_list 0 qc)
              (track_pauli pauli_list (int (n_spins kn) - 1))
       else Inr qc)"

definition quasi_coupling_pass :: "kernel \<Rightarrow> string list \<Rightarrow> nat \<Rightarrow> nat \<Rightarrow> circuit \<Rightarrow> circuit raising" where
  "quasi_coupling_pass kn pauli_list k j qc0 =
     for_each (rev (py_range (j mod 2) (n_spins kn - 1) 2))
       (\<lambda>i qc.
          if k = 0 \<and> j = 1
          then then_do (lookup pauli_list (int i) qc) (\<lambda>gate_i.
               then_do (lookup pauli_list (int ((i + 1) mod n_spins kn)) qc) (\<lambda>gate_next.
               Inr (qc @ [Instr (xxyyzz_opt_gate_quasi_mirror (tau kn) gate_i gate_next)
                                [i, (i + 1) mod n_spins kn]])))
          else Inr (qc @ [Instr (xxyyzz_opt_gate_mirror (tau kn)) [i, (i + 1) mod n_spins kn]]))
       qc0"

text \<open>One iteration of the loop over \<open>k\<close> in \<open>create_quasi_inverse_hamiltonian\<close>.\<close>

definition quasi_inverse_step :: "kernel \<Rightarrow> string list \<Rightarrow> nat \<Rightarrow> circuit \<Rightarrow> circuit raising" where
  "quasi_inverse_step kn pauli_list k qc0 =
     then_do
       (if use_XX_YY_ZZ_gates kn
        then Inr (qc0 @ coupling_loop (n_spins kn) (zz_gate_mirror (tau kn)) @
                        coupling_loop (n_spins kn) (yy_gate_mirror (tau kn)) @
                        coupling_loop (n_spins kn) (xx_gate_mirror (tau kn)))
        else for_each (rev [0, 1])
               (\<lambda>j qc.
                  then_do (if j = 0 \<and> k = 0 then boundary_twirl kn pauli_list qc else Inr qc)
                    (quasi_coupling_pass kn pauli_list k j))
               qc0)
       (\<lambda>qc.
     then_do (local_rotations RZGate (- 2 * tau kn * w kn) (h_z kn) (n_spins kn)
                (qc @ [Prim Barrier])) (\<lambda>qc.
     then_do (local_rotations RXGate (- 2 * tau kn * w kn) (h_x kn) (n_spins kn) qc) (\<lambda>qc.
     Inr (qc @ [Prim Barrier]))))"

definition heisenberg_create_quasi_inverse_hamiltonian ::
  "kernel \<Rightarrow> (nat \<Rightarrow> bool) \<Rightarrow> circuit raising" where
  "heisenberg_create_quasi_inverse_hamiltonian kn draws =
     (let pauli_list = random_paulis_list kn draws;
          qc = twirl_gates pauli_list @ [Prim Barrier];
          res_pauli = ResultantPauli kn
      in
      then_do (for_each [0..<K kn] (quasi_inverse_step kn pauli_list) qc)
        (\<lambda>qc. Inr (qc @ [Instr res_pauli [0..<n_spins kn]])))"

subsection \<open>TfimHamiltonianKernel\<close>

text \<open>\<open>create_hamiltonian\<close> sets the attribute \<open>h\<close> and returns the circuit.\<close>

definition tfim_create_hamiltonian :: "kernel \<Rightarrow> circuit \<times> kernel" where
  "tfim_create_hamiltonian kn0 =
     (let kn = kn0\<lparr>h := Some 0.2\<rparr> in
      (concat (map (\<lambda>k. map (\<lambda>i. Prim (RXGate (2 * tau kn * the (h kn)) i)) [0..<n_spins kn] @
                          [Prim Barrier] @
                          coupling_loop (n_spins kn) (zz_gate (tau kn)) @
                          [Prim Barrier])
                   [0..<K kn]),
       kn))"

text \<open>The negated field rotations read the attribute \<open>h\<close>, which raises while it is absent.\<close>

definition tfim_field_rotations :: "kernel \<Rightarrow> circuit \<Rightarrow> circuit raising" where
  "tfim_field_rotations kn qc0 =
     for_each [0..<n_spins kn]
       (\<lambda>i qc. case h kn of
                  None \<Rightarrow> Inl (AttributeError, qc)
                | Some hv \<Rightarrow> Inr (qc @ [Prim (RXGate (- 2 * tau kn * hv) i)]))
       qc0"

definition tfim_create_inverse_hamiltonian :: "kernel \<Rightarrow> circuit raising" where
  "tfim_create_inverse_hamiltonian kn =
     for_each [0..<K kn]
       (\<lambda>k qc.
          then_do (tfim_field_rotations kn
                     (qc @ coupling_loop (n_spins kn) (zz_gate_mirror (tau kn)) @ [Prim Barrier]))
            (\<lambda>qc. Inr (qc @ [Prim Barrier])))
       []"

definition tfim_create_quasi_inverse_hamiltonian :: "kernel \<Rightarrow> circuit raising" where
  "tfim_create_quasi_inverse_hamiltonian kn =
     for_each [0..<K kn]
       (\<lambda>k qc.
          then_do (tfim_field_rotations kn
                     (qc @ coupling_loop (n_spins kn) (zz_gate_mirror (tau kn)) @ [Prim Barrier]))
            (\<lambda>qc. Inr (qc @ [Prim Barrier])))
       []"

subsection \<open>What the loops append\<close>

text \<open>
  The lists below are used to state results: the qubits \<open>i\<close> of the pairs \<open>(i, i + 1)\<close> that
  the two passes of a coupling loop visit, and the operations that one iteration of each
  builder's loop over \<open>k\<close> appends when no lookup raises. The lemmas of the next section
  relate them to the builders.
\<close>

definition brick_pairs :: "nat \<Rightarrow> nat list" where
  "brick_pairs n = py_range 0 (n - 1) 2 @ py_range 1 (n - 1) 2"

definition heisenberg_step :: "kernel \<Rightarrow> circuit" where
  "heisenberg_step kn =
     map (\<lambda>i. Prim (RXGate (2 * tau kn * w kn * h_x kn ! i) i)) [0..<n_spins kn] @
     map (\<lambda>i. Prim (RZGate (2 * tau kn * w kn * h_z kn ! i) i)) [0..<n_spins kn] @
     [Prim Barrier] @
     (if use_XX_YY_ZZ_gates kn
      then coupling_loop (n_spins kn) (xx_gate (tau kn)) @
           coupling_loop (n_spins kn) (yy_gate (tau kn)) @
           coupling_loop (n_spins kn) (zz_gate (tau kn))
      else coupling_loop (n_spins kn) (xxyyzz_opt_gate (tau kn))) @
     [Prim Barrier]"

definition heisenberg_inverse_step :: "kernel \<Rightarrow> circuit" where
  "heisenberg_inverse_step kn =
     (if use_XX_YY_ZZ_gates kn
      then coupling_loop (n_spins kn) (zz_gate_mirror (tau kn)) @
           coupling_loop_reversed (n_spins kn) (yy_gate_mirror (tau kn)) @
           coupling_loop (n_spins kn) (xx_gate_mirror (tau kn))
      else coupling_loop_reversed (n_spins kn) (xxyyzz_opt_gate_mirror (tau kn))) @
     [Prim Barrier] @
     map (\<lambda>i. Prim (RZGate (- 2 * tau kn * w kn * h_z kn ! i) i)) [0..<n_spins kn] @
     map (\<lambda>i. Prim (RXGate (- 2 * tau kn * w kn * h_x kn ! i) i)) [0..<n_spins kn] @
     [Prim Barrier]"

definition tfim_step :: "kernel \<Rightarrow> circuit" where
  "tfim_step kn =
     map (\<lambda>i. Prim (RXGate (2 * tau kn * 0.2) i)) [0..<n_spins kn] @
     [Prim Barrier] @ coupling_loop (n_spins kn) (zz_gate (tau kn)) @ [Prim Barrier]"

definition tfim_inverse_step :: "kernel \<Rightarrow> real \<Rightarrow> circuit" where
  "tfim_inverse_step kn hv =
     coupling_loop (n_spins kn) (zz_gate_mirror (tau kn)) @ [Prim Barrier] @
     map (\<lambda>i. Prim (RXGate (- 2 * tau kn * hv) i)) [0..<n_spins kn] @ [Prim Barrier]"

definition twirl_op :: "string list \<Rightarrow> nat \<Rightarrow> op" where
  "twirl_op pauli_list q =
     (if pauli_list ! q = ''x'' then Prim (XGate q) else Prim (ZGate q))"

definition quasi_first_step :: "kernel \<Rightarrow> string list \<Rightarrow> circuit" where
  "quasi_first_step kn pl =
     map (\<lambda>i. Instr (xxyyzz_opt_gate_quasi_mirror (tau kn) (pl ! i) (pl ! Suc i)) [i, Suc i])
         (rev (py_range 1 (n_spins kn - 1) 2)) @
     (if odd (n_spins kn) then [twirl_op pl 0]
      else [twirl_op pl 0, twirl_op pl (n_spins kn - 1)]) @
     map (\<lambda>i. Instr (xxyyzz_opt_gate_mirror (tau kn)) [i, Suc i])
         (rev (py_range 0 (n_spins kn - 1) 2)) @
     [Prim Barrier] @
     map (\<lambda>i. Prim (RZGate (- 2 * tau kn * w kn * h_z kn ! i) i)) [0..<n_spins kn] @
     map (\<lambda>i. Prim (RXGate (- 2 * tau kn * w kn * h_x kn ! i) i)) [0..<n_spins kn] @
     [Prim Barrier]"

definition quasi_separate_step :: "kernel \<Rightarrow> circuit" where
  "quasi_separate_step kn =
     coupling_loop (n_spins kn) (zz_gate_mirror (tau kn)) @
     coupling_loop (n_spins kn) (yy_gate_mirror (tau kn)) @
     coupling_loop (n_spins kn) (xx_gate_mirror (tau kn)) @
     [Prim Barrier] @
     map (\<lambda>i. Prim (RZGate (- 2 * tau kn * w kn * h_z kn ! i) i)) [0..<n_spins kn] @
     map (\<lambda>i. Prim (RXGate (- 2 * tau kn * w kn * h_x kn ! i) i)) [0..<n_spins kn] @
     [Prim Barrier]"

subsection \<open>The operator of a circuit\<close>

text \<open>
  A basis state gives a bit to every qubit, and a state gives an amplitude to every basis
  state. A gate acts on the bits of its own qubits only, so the operator of a circuit
  over \<open>n_spins\<close> qubits is its action on the first \<open>n_spins\<close> bits. The matrices are the
  ones of Qiskit's standard gates. \<open>cx\<close> is applied to two different qubits only (Qiskit
  rejects a duplicate qubit argument).
\<close>

type_synonym basis = "nat \<Rightarrow> bool"

type_synonym state = "basis \<Rightarrow> complex"

type_synonym matrix = "complex \<times> complex \<times> complex \<times> complex"

definition apply_matrix :: "matrix \<Rightarrow> nat \<Rightarrow> state \<Rightarrow> state" where
  "apply_matrix m q psi =
     (case m of (a, b, c, d) \<Rightarrow>
        (\<lambda>x. if x q then c * psi (x(q := False)) + d * psi (x(q := True))
             else a * psi (x(q := False)) + b * psi (x(q := True))))"

definition apply_cx :: "nat \<Rightarrow> nat \<Rightarrow> state \<Rightarrow> state" where
  "apply_cx c tg psi = (\<lambda>x. psi (x(tg := (x tg \<noteq> x c))))"

definition hadamard :: matrix where
  "hadamard =
     (complex_of_real (1 / sqrt 2), complex_of_real (1 / sqrt 2),
      complex_of_real (1 / sqrt 2), - complex_of_real (1 / sqrt 2))"

definition pauli_x :: matrix where
  "pauli_x = (0, 1, 1, 0)"

definition pauli_z :: matrix where
  "pauli_z = (1, 0, 0, - 1)"

definition phase_s :: matrix where
  "phase_s = (1, 0, 0, \<i>)"

definition phase_sdg :: matrix where
  "phase_sdg = (1, 0, 0, - \<i>)"

definition rx_matrix :: "real \<Rightarrow> matrix" where
  "rx_matrix th =
     (complex_of_real (cos (th / 2)), - \<i> * complex_of_real (sin (th / 2)),
      - \<i> * complex_of_real (sin (th / 2)), complex_of_real (cos (th / 2)))"

definition ry_matrix :: "real \<Rightarrow> matrix" where
  "ry_matrix th =
     (complex_of_real (cos (th / 2)), - complex_of_real (sin (th / 2)),
      complex_of_real (sin (th / 2)), complex_of_real (cos (th / 2)))"

definition rz_matrix :: "real \<Rightarrow> matrix" where
  "rz_matrix th = (cis (- th / 2), 0, 0, cis (th / 2))"

fun apply_gate :: "gate \<Rightarrow> state \<Rightarrow> state" where
  "apply_gate (HGate q) psi = apply_matrix hadamard q psi"
| "apply_gate (XGate q) psi = apply_matrix pauli_x q psi"
| "apply_gate (ZGate q) psi = apply_matrix pauli_z q psi"
| "apply_gate (SGate q) psi = apply_matrix phase_s q psi"
| "apply_gate (SdgGate q) psi = apply_matrix phase_sdg q psi"
| "apply_gate (RXGate th q) psi = apply_matrix (rx_matrix th) q psi"
| "apply_gate (RYGate th q) psi = apply_matrix (ry_matrix th) q psi"
| "apply_gate (RZGate th q) psi = apply_matrix (rz_matrix th) q psi"
| "apply_gate (CXGate c tg) psi = apply_cx c tg psi"
| "apply_gate Barrier psi = psi"

text \<open>An instruction appended on the qubits \<open>qs\<close> acts on \<open>qs[0]\<close>, \<open>qs[1]\<close>, ...\<close>

fun on_qubits :: "nat list \<Rightarrow> gate \<Rightarrow> gate" where
  "on_qubits qs (HGate q) = HGate (qs ! q)"
| "on_qubits qs (XGate q) = XGate (qs ! q)"
| "on_qubits qs (ZGate q) = ZGate (qs ! q)"
| "on_qubits qs (SGate q) = SGate (qs ! q)"
| "on_qubits qs (SdgGate q) = SdgGate (qs ! q)"
| "on_qubits qs (RXGate th q) = RXGate th (qs ! q)"
| "on_qubits qs (RYGate th q) = RYGate th (qs ! q)"
| "on_qubits qs (RZGate th q) = RZGate th (qs ! q)"
| "on_qubits qs (CXGate c tg) = CXGate (qs ! c) (qs ! tg)"
| "on_qubits qs Barrier = Barrier"

fun run_gates :: "gate list \<Rightarrow> state \<Rightarrow> state" where
  "run_gates [] psi = psi"
| "run_gates (g # gs) psi = run_gates gs (apply_gate g psi)"

fun apply_op :: "op \<Rightarrow> state \<Rightarrow> state" where
  "apply_op (Prim g) psi = apply_gate g psi"
| "apply_op (Instr gs qs) psi = run_gates (map (on_qubits qs) gs) psi"

fun run :: "circuit \<Rightarrow> state \<Rightarrow> state" where
  "run [] psi = psi"
| "run (o1 # os) psi = run os (apply_op o1 psi)"

text \<open>Devices of the proofs: the product of two matrices and a diagonal operator.\<close>

fun matrix_mult :: "matrix \<Rightarrow> matrix \<Rightarrow> matrix" where
  "matrix_mult (a, b, c, d) (a', b', c', d') =
     (a * a' + b * c', a * b' + b * d', c * a' + d * c', c * b' + d * d')"

definition apply_diagonal :: "(basis \<Rightarrow> complex) \<Rightarrow> state \<Rightarrow> state" where
  "apply_diagonal f psi = (\<lambda>x. f x * psi x)"

definition zz_phase :: "real \<Rightarrow> nat \<Rightarrow> nat \<Rightarrow> basis \<Rightarrow> complex" where
  "zz_phase th a b x = (if x a \<noteq> x b then cis (th / 2) else cis (- th / 2))"

text \<open>The gate that undoes a gate, and the circuit that undoes a circuit gate by gate.\<close>

fun inverse_gate :: "gate \<Rightarrow> gate" where
  "inverse_gate (HGate q) = HGate q"
| "inverse_gate (XGate q) = XGate q"
| "inverse_gate (ZGate q) = ZGate q"
| "inverse_gate (SGate q) = SdgGate q"
| "inverse_gate (SdgGate q) = SGate q"
| "inverse_gate (RXGate th q) = RXGate (- th) q"
| "inverse_gate (RYGate th q) = RYGate (- th) q"
| "inverse_gate (RZGate th q) = RZGate (- th) q"
| "inverse_gate (CXGate c tg) = CXGate c tg"
| "inverse_gate Barrier = Barrier"

definition adjoint :: "gate list \<Rightarrow> gate list" where
  "adjoint gs = rev (map inverse_gate gs)"

fun distinct_qubits :: "gate \<Rightarrow> bool" where
  "distinct_qubits (CXGate c tg) = (c \<noteq> tg)"
| "distinct_qubits g = True"

text \<open>
  The shape of the separate-axis blocks: a diagonal ZZ phase between two layers of one
  matrix on each of the two qubits.
\<close>

definition conjugated_zz :: "matrix \<Rightarrow> matrix \<Rightarrow> real \<Rightarrow> nat \<Rightarrow> nat \<Rightarrow> state \<Rightarrow> state" where
  "conjugated_zz v v' th a b psi =
     apply_matrix v' b (apply_matrix v' a
       (apply_diagonal (zz_phase th a b) (apply_matrix v b (apply_matrix v a psi))))"

section \<open>The builders when no lookup raises\<close>

lemma then_do_Inr [simp]: "then_do (Inr v) f = f v"
  by (simp add: then_do_def)

lemma then_do_Inl [simp]: "then_do (Inl e) f = Inl e"
  by (simp add: then_do_def)

lemma for_each_append:
  "for_each (xs @ ys) body qc = then_do (for_each xs body qc) (for_each ys body)"
  by (induction xs arbitrary: qc) (auto simp: then_do_def split: sum.splits)

lemma for_each_emit:
  "(\<And>x qc. x \<in> set xs \<Longrightarrow> body x qc = Inr (qc @ f x)) \<Longrightarrow>
   for_each xs body qc = Inr (qc @ concat (map f xs))"
  by (induction xs arbitrary: qc) auto

lemma py_get_nat: "i < length xs \<Longrightarrow> py_get xs (int i) = Inr (xs ! i)"
  by (simp add: py_get_def)

lemma lookup_nat: "i < length xs \<Longrightarrow> lookup xs (int i) qc = Inr (xs ! i)"
  by (simp add: lookup_def py_get_nat)

lemma lookup_short: "length xs \<le> i \<Longrightarrow> lookup xs (int i) qc = Inl (IndexError, qc)"
  by (simp add: lookup_def py_get_def)

lemma local_rotations_ok:
  assumes "n \<le> length fld"
  shows "local_rotations rot c fld n qc = Inr (qc @ map (\<lambda>i. Prim (rot (c * fld ! i) i)) [0..<n])"
proof -
  have "for_each [0..<n]
       (\<lambda>i qc. then_do (lookup fld (int i) qc) (\<lambda>v. Inr (qc @ [Prim (rot (c * v) i)]))) qc
     = Inr (qc @ concat (map (\<lambda>i. [Prim (rot (c * fld ! i) i)]) [0..<n]))"
    using assms by (intro for_each_emit) (simp add: lookup_nat)
  then show ?thesis
    by (simp add: local_rotations_def concat_map_singleton)
qed

lemma local_rotations_short:
  assumes "length fld < n"
  shows "local_rotations rot c fld n qc =
         Inl (IndexError, qc @ map (\<lambda>i. Prim (rot (c * fld ! i) i)) [0..<length fld])"
proof -
  let ?body = "\<lambda>i qc. then_do (lookup fld (int i) qc) (\<lambda>v. Inr (qc @ [Prim (rot (c * v) i)]))"
  have split: "[0..<n] = [0..<length fld] @ length fld # [Suc (length fld)..<n]"
    using assms by (metis upt_add_eq_append upt_conv_Cons le_add_diff_inverse less_imp_le_nat zero_le)
  have a: "for_each [0..<length fld] ?body qc
     = Inr (qc @ concat (map (\<lambda>i. [Prim (rot (c * fld ! i) i)]) [0..<length fld]))"
    by (intro for_each_emit) (simp add: lookup_nat)
  show ?thesis
    unfolding local_rotations_def
    by (subst split) (simp add: for_each_append a lookup_short concat_map_singleton)
qed

lemma random_paulis_list_eq:
  "random_paulis_list kn draws = map (\<lambda>i. np_random_choice (draws i)) [0..<n_spins kn]"
proof -
  have "(\<lambda>i. let g = np_random_choice (draws i) in
                        (if g = ''x'' then [''x''] else []) @ (if g = ''z'' then [''z''] else []))
      = (\<lambda>i. [np_random_choice (draws i)])"
    by (auto simp: np_random_choice_def fun_eq_iff)
  then show ?thesis
    by (simp add: random_paulis_list_def concat_map_singleton)
qed

lemma py_range_mem:
  "i \<in> set (py_range a b 2) \<longleftrightarrow> a \<le> i \<and> i < b \<and> even (i - a)"
proof
  assume "i \<in> set (py_range a b 2)"
  then obtain m where m: "i = a + 2 * m" "m < (b + 2 - 1 - a) div 2"
    by (auto simp: py_range_def)
  from m(2) have "a + 2 * m < b" by arith
  with m(1) show "a \<le> i \<and> i < b \<and> even (i - a)" by simp
next
  assume h: "a \<le> i \<and> i < b \<and> even (i - a)"
  then have "even (i - a)" by blast
  then obtain m where m: "i - a = 2 * m" by (rule evenE)
  with h have e: "i = a + 2 * m" by arith
  from h e have "m < (b + 2 - 1 - a) div 2" by arith
  with e show "i \<in> set (py_range a b 2)" by (simp add: py_range_def)
qed

lemma py_range_distinct: "distinct (py_range a b 2)"
  unfolding py_range_def by (rule distinct_map [THEN iffD2]) (simp add: inj_on_def)

lemma py_range_even: "i \<in> set (py_range 0 b 2) \<longleftrightarrow> i < b \<and> even i"
  using py_range_mem [of i 0 b] by simp

lemma py_range_odd: "i \<in> set (py_range 1 b 2) \<longleftrightarrow> i < b \<and> odd i"
proof -
  have "1 \<le> i \<and> even (i - 1) \<longleftrightarrow> odd i"
    by (cases i) auto
  then show ?thesis using py_range_mem [of i 1 b] by blast
qed

lemma brick_pairs_distinct: "distinct (brick_pairs n)"
proof -
  have "set (py_range 0 (n - 1) 2) \<inter> set (py_range 1 (n - 1) 2) = {}"
    using py_range_even py_range_odd by blast
  then show ?thesis
    unfolding brick_pairs_def by (simp only: distinct_append py_range_distinct simp_thms)
qed

lemma brick_pairs_mem: "i \<in> set (brick_pairs n) \<longleftrightarrow> i < n - 1"
  unfolding brick_pairs_def set_append Un_iff py_range_even py_range_odd by blast

lemma pair_map_cong:
  "\<forall>i \<in> set xs. i < n - 1 \<Longrightarrow>
   map (\<lambda>i. Instr g [i, (i + 1) mod n]) xs = map (\<lambda>i. Instr g [i, Suc i]) xs"
  by (induction xs) auto

lemma py_range_below: "\<forall>i \<in> set (py_range a b 2). i < b"
  using py_range_mem by blast

lemma coupling_loop_eq:
  "coupling_loop n g = map (\<lambda>i. Instr g [i, Suc i]) (brick_pairs n)"
proof -
  have "map (\<lambda>i. Instr g [i, (i + 1) mod n]) (py_range a (n - 1) 2)
      = map (\<lambda>i. Instr g [i, Suc i]) (py_range a (n - 1) 2)" for a
    by (rule pair_map_cong) (rule py_range_below)
  then show ?thesis
    unfolding coupling_loop_def brick_pairs_def by simp
qed

lemma coupling_loop_reversed_eq:
  "coupling_loop_reversed n g = map (\<lambda>i. Instr g [i, Suc i]) (rev (brick_pairs n))"
proof -
  have "\<forall>i \<in> set (rev (py_range a (n - 1) 2)). i < n - 1" for a
    unfolding set_rev by (rule py_range_below)
  then have "map (\<lambda>i. Instr g [i, (i + 1) mod n]) (rev (py_range a (n - 1) 2))
      = map (\<lambda>i. Instr g [i, Suc i]) (rev (py_range a (n - 1) 2))" for a
    by (rule pair_map_cong)
  then show ?thesis
    unfolding coupling_loop_reversed_def brick_pairs_def by simp
qed

lemma for_each_const:
  "(\<And>x qc. x \<in> set xs \<Longrightarrow> body x qc = Inr (qc @ ops)) \<Longrightarrow>
   for_each xs body qc = Inr (qc @ concat (replicate (length xs) ops))"
  by (induction xs arbitrary: qc) auto

lemma heisenberg_create_hamiltonian_ok:
  assumes "n_spins kn \<le> length (h_x kn)" "n_spins kn \<le> length (h_z kn)"
  shows "heisenberg_create_hamiltonian kn =
         Inr (concat (replicate (K kn) (heisenberg_step kn)))"
proof -
  have "heisenberg_create_hamiltonian kn =
        Inr ([] @ concat (replicate (length [0..<K kn]) (heisenberg_step kn)))"
    unfolding heisenberg_create_hamiltonian_def
    by (rule for_each_const) (simp add: local_rotations_ok assms heisenberg_step_def)
  then show ?thesis by simp
qed

lemma heisenberg_create_inverse_hamiltonian_ok:
  assumes "n_spins kn \<le> length (h_x kn)" "n_spins kn \<le> length (h_z kn)"
  shows "heisenberg_create_inverse_hamiltonian kn =
         Inr (concat (replicate (K kn) (heisenberg_inverse_step kn)))"
proof -
  have "heisenberg_create_inverse_hamiltonian kn =
        Inr ([] @ concat (replicate (length [0..<K kn]) (heisenberg_inverse_step kn)))"
    unfolding heisenberg_create_inverse_hamiltonian_def
    by (rule for_each_const) (simp add: local_rotations_ok assms heisenberg_inverse_step_def Let_def)
  then show ?thesis by simp
qed

lemma map_const_concat: "concat (map (\<lambda>k. ops) xs) = concat (replicate (length xs) ops)"
  by (induction xs) auto

lemma tfim_create_hamiltonian_eq:
  "tfim_create_hamiltonian kn =
     (concat (replicate (K kn) (tfim_step kn)), kn\<lparr>h := Some 0.2\<rparr>)"
  unfolding tfim_create_hamiltonian_def tfim_step_def Let_def
  by (simp add: map_const_concat)

lemma tfim_field_rotations_ok:
  assumes "h kn = Some hv"
  shows "tfim_field_rotations kn qc =
         Inr (qc @ map (\<lambda>i. Prim (RXGate (- 2 * tau kn * hv) i)) [0..<n_spins kn])"
proof -
  have "tfim_field_rotations kn qc =
        Inr (qc @ concat (map (\<lambda>i. [Prim (RXGate (- 2 * tau kn * hv) i)]) [0..<n_spins kn]))"
    unfolding tfim_field_rotations_def by (rule for_each_emit) (simp add: assms)
  then show ?thesis by (simp add: concat_map_singleton)
qed

lemma tfim_create_inverse_hamiltonian_ok:
  assumes "h kn = Some hv"
  shows "tfim_create_inverse_hamiltonian kn =
         Inr (concat (replicate (K kn) (tfim_inverse_step kn hv)))"
proof -
  have "tfim_create_inverse_hamiltonian kn =
        Inr ([] @ concat (replicate (length [0..<K kn]) (tfim_inverse_step kn hv)))"
    unfolding tfim_create_inverse_hamiltonian_def
    by (rule for_each_const) (simp add: tfim_field_rotations_ok [OF assms] tfim_inverse_step_def)
  then show ?thesis by simp
qed

lemma random_paulis_list_length: "length (random_paulis_list kn draws) = n_spins kn"
  by (simp add: random_paulis_list_eq)

lemma random_paulis_list_nth:
  "i < n_spins kn \<Longrightarrow> random_paulis_list kn draws ! i = np_random_choice (draws i)"
  by (simp add: random_paulis_list_eq)

lemma np_random_choice_cases:
  "np_random_choice b = ''x'' \<or> np_random_choice b = ''z''"
  by (simp add: np_random_choice_def)

lemma random_paulis_list_tags:
  "i < n_spins kn \<Longrightarrow>
   random_paulis_list kn draws ! i = ''x'' \<or> random_paulis_list kn draws ! i = ''z''"
  by (simp add: random_paulis_list_nth np_random_choice_cases)

lemma zip_upt_nth: "zip [0..<length xs] xs = map (\<lambda>i. (i, xs ! i)) [0..<length xs]"
  by (rule nth_equalityI) simp_all

lemma lookup_Suc: "Suc i < length xs \<Longrightarrow> lookup xs (1 + int i) qc = Inr (xs ! Suc i)"
  using lookup_nat [of "Suc i" xs qc] by simp

lemma twirl_gates_eq: "twirl_gates pl = map (twirl_op pl) [0..<length pl]"
  unfolding twirl_gates_def zip_upt_nth by (simp add: twirl_op_def)

lemma track_pauli_ok:
  assumes "q < length pl" "pl ! q = ''x'' \<or> pl ! q = ''z''"
  shows "track_pauli pl (int q) qc = Inr (qc @ [twirl_op pl q])"
  using assms by (auto simp: track_pauli_def lookup_nat twirl_op_def Let_def)

lemma boundary_twirl_ok:
  assumes "length pl = n_spins kn" "0 < n_spins kn"
    and "\<forall>i < n_spins kn. pl ! i = ''x'' \<or> pl ! i = ''z''"
  shows "boundary_twirl kn pl qc =
         Inr (qc @ (if odd (n_spins kn) then [twirl_op pl 0]
                    else [twirl_op pl 0, twirl_op pl (n_spins kn - 1)]))"
proof -
  have a: "track_pauli pl 0 c = Inr (c @ [twirl_op pl 0])" for c
    using track_pauli_ok [of 0 pl c] assms by simp
  have "int (n_spins kn) - 1 = int (n_spins kn - 1)"
    using assms(2) by simp
  then have b: "track_pauli pl (int (n_spins kn) - 1) c = Inr (c @ [twirl_op pl (n_spins kn - 1)])" for c
    using track_pauli_ok [of "n_spins kn - 1" pl c] assms by simp
  show ?thesis
  proof (cases "odd (n_spins kn)")
    case True
    then have "n_spins kn mod 2 = 1" by presburger
    then show ?thesis using True by (simp add: boundary_twirl_def a)
  next
    case False
    then have "n_spins kn mod 2 = 0" by presburger
    then show ?thesis using False by (simp add: boundary_twirl_def a b)
  qed
qed

lemma quasi_coupling_pass_first:
  assumes "length pl = n_spins kn"
  shows "quasi_coupling_pass kn pl 0 1 qc =
         Inr (qc @ map (\<lambda>i. Instr (xxyyzz_opt_gate_quasi_mirror (tau kn) (pl ! i) (pl ! Suc i))
                                   [i, Suc i])
                       (rev (py_range 1 (n_spins kn - 1) 2)))"
proof -
  let ?f = "\<lambda>i. [Instr (xxyyzz_opt_gate_quasi_mirror (tau kn) (pl ! i) (pl ! Suc i)) [i, Suc i]]"
  have "quasi_coupling_pass kn pl 0 1 qc =
        Inr (qc @ concat (map ?f (rev (py_range (1 mod 2) (n_spins kn - 1) 2))))"
    unfolding quasi_coupling_pass_def
  proof (rule for_each_emit)
    fix i c assume "i \<in> set (rev (py_range (1 mod 2) (n_spins kn - 1) 2))"
    then have "i < n_spins kn - 1" using py_range_below by auto
    then have i: "i < n_spins kn" "Suc i < n_spins kn" "(i + 1) mod n_spins kn = Suc i"
      by auto
    show "(if (0::nat) = 0 \<and> (1::nat) = 1
           then then_do (lookup pl (int i) c) (\<lambda>gate_i.
                then_do (lookup pl (int ((i + 1) mod n_spins kn)) c) (\<lambda>gate_next.
                Inr (c @ [Instr (xxyyzz_opt_gate_quasi_mirror (tau kn) gate_i gate_next)
                                [i, (i + 1) mod n_spins kn]])))
           else Inr (c @ [Instr (xxyyzz_opt_gate_mirror (tau kn)) [i, (i + 1) mod n_spins kn]]))
          = Inr (c @ ?f i)"
      using i assms by (simp add: lookup_nat lookup_Suc)
  qed
  then show ?thesis by (simp add: concat_map_singleton)
qed

lemma quasi_coupling_pass_plain:
  assumes "\<not> (k = 0 \<and> j = 1)"
  shows "quasi_coupling_pass kn pl k j qc =
         Inr (qc @ map (\<lambda>i. Instr (xxyyzz_opt_gate_mirror (tau kn)) [i, Suc i])
                       (rev (py_range (j mod 2) (n_spins kn - 1) 2)))"
proof -
  let ?f = "\<lambda>i. [Instr (xxyyzz_opt_gate_mirror (tau kn)) [i, Suc i]]"
  have "quasi_coupling_pass kn pl k j qc =
        Inr (qc @ concat (map ?f (rev (py_range (j mod 2) (n_spins kn - 1) 2))))"
    unfolding quasi_coupling_pass_def
  proof (rule for_each_emit)
    fix i c assume "i \<in> set (rev (py_range (j mod 2) (n_spins kn - 1) 2))"
    then have "i < n_spins kn - 1" using py_range_below by auto
    then have i: "(i + 1) mod n_spins kn = Suc i"
      by auto
    show "(if k = 0 \<and> j = 1
           then then_do (lookup pl (int i) c) (\<lambda>gate_i.
                then_do (lookup pl (int ((i + 1) mod n_spins kn)) c) (\<lambda>gate_next.
                Inr (c @ [Instr (xxyyzz_opt_gate_quasi_mirror (tau kn) gate_i gate_next)
                                [i, (i + 1) mod n_spins kn]])))
           else Inr (c @ [Instr (xxyyzz_opt_gate_mirror (tau kn)) [i, (i + 1) mod n_spins kn]]))
          = Inr (c @ ?f i)"
      using i assms by auto
  qed
  then show ?thesis by (simp add: concat_map_singleton)
qed

lemma quasi_inverse_step_separate:
  assumes "use_XX_YY_ZZ_gates kn"
    and "n_spins kn \<le> length (h_x kn)" "n_spins kn \<le> length (h_z kn)"
  shows "quasi_inverse_step kn pl k qc = Inr (qc @ quasi_separate_step kn)"
  using assms by (simp add: quasi_inverse_step_def local_rotations_ok quasi_separate_step_def)

lemma quasi_inverse_step_first:
  assumes "\<not> use_XX_YY_ZZ_gates kn"
    and "n_spins kn \<le> length (h_x kn)" "n_spins kn \<le> length (h_z kn)"
    and "length pl = n_spins kn" "0 < n_spins kn"
    and "\<forall>i < n_spins kn. pl ! i = ''x'' \<or> pl ! i = ''z''"
  shows "quasi_inverse_step kn pl 0 qc = Inr (qc @ quasi_first_step kn pl)"
proof -
  have p1: "quasi_coupling_pass kn pl 0 (Suc 0) c =
        Inr (c @ map (\<lambda>i. Instr (xxyyzz_opt_gate_quasi_mirror (tau kn) (pl ! i) (pl ! Suc i)) [i, Suc i])
                     (rev (py_range 1 (n_spins kn - 1) 2)))" for c
    using quasi_coupling_pass_first [OF assms(4), of c] by simp
  have p0: "quasi_coupling_pass kn pl 0 0 c =
        Inr (c @ map (\<lambda>i. Instr (xxyyzz_opt_gate_mirror (tau kn)) [i, Suc i])
                     (rev (py_range 0 (n_spins kn - 1) 2)))" for c
    using quasi_coupling_pass_plain [of 0 0 kn pl c] by simp
  have bt: "boundary_twirl kn pl c =
         Inr (c @ (if odd (n_spins kn) then [twirl_op pl 0]
                    else [twirl_op pl 0, twirl_op pl (n_spins kn - 1)]))" for c
    by (rule boundary_twirl_ok [OF assms(4,5,6)])
  show ?thesis
    unfolding quasi_inverse_step_def quasi_first_step_def
    using assms(1,2,3) by (simp add: p1 p0 bt local_rotations_ok)
qed

lemma quasi_inverse_step_later:
  assumes "\<not> use_XX_YY_ZZ_gates kn"
    and "n_spins kn \<le> length (h_x kn)" "n_spins kn \<le> length (h_z kn)"
    and "0 < k"
  shows "quasi_inverse_step kn pl k qc = Inr (qc @ heisenberg_inverse_step kn)"
proof -
  have p1: "quasi_coupling_pass kn pl k (Suc 0) c =
        Inr (c @ map (\<lambda>i. Instr (xxyyzz_opt_gate_mirror (tau kn)) [i, (i + 1) mod n_spins kn])
                     (rev (py_range (1 mod 2) (n_spins kn - 1) 2)))" for c
    using assms(4) by (simp add: quasi_coupling_pass_def for_each_emit concat_map_singleton)
  have p0: "quasi_coupling_pass kn pl k 0 c =
        Inr (c @ map (\<lambda>i. Instr (xxyyzz_opt_gate_mirror (tau kn)) [i, (i + 1) mod n_spins kn])
                     (rev (py_range (0 mod 2) (n_spins kn - 1) 2)))" for c
    using assms(4) by (simp add: quasi_coupling_pass_def for_each_emit concat_map_singleton)
  show ?thesis
    unfolding quasi_inverse_step_def heisenberg_inverse_step_def coupling_loop_reversed_def
    using assms by (simp add: p1 p0 local_rotations_ok)
qed

lemma heisenberg_quasi_separate:
  assumes "use_XX_YY_ZZ_gates kn"
    and "n_spins kn \<le> length (h_x kn)" "n_spins kn \<le> length (h_z kn)"
  shows "heisenberg_create_quasi_inverse_hamiltonian kn draws =
         Inr (twirl_gates (random_paulis_list kn draws) @ [Prim Barrier] @
              concat (replicate (K kn) (quasi_separate_step kn)) @
              [Instr (ResultantPauli kn) [0..<n_spins kn]])"
proof -
  have "for_each [0..<K kn] (quasi_inverse_step kn pl) qc =
        Inr (qc @ concat (replicate (length [0..<K kn]) (quasi_separate_step kn)))" for pl qc
    by (rule for_each_const) (rule quasi_inverse_step_separate [OF assms])
  then show ?thesis
    by (simp add: heisenberg_create_quasi_inverse_hamiltonian_def Let_def)
qed

lemma heisenberg_quasi_fused:
  assumes "\<not> use_XX_YY_ZZ_gates kn"
    and "n_spins kn \<le> length (h_x kn)" "n_spins kn \<le> length (h_z kn)"
    and "0 < n_spins kn" "0 < K kn"
  shows "heisenberg_create_quasi_inverse_hamiltonian kn draws =
         Inr (twirl_gates (random_paulis_list kn draws) @ [Prim Barrier] @
              quasi_first_step kn (random_paulis_list kn draws) @
              concat (replicate (K kn - 1) (heisenberg_inverse_step kn)) @
              [Instr (ResultantPauli kn) [0..<n_spins kn]])"
proof -
  let ?pl = "random_paulis_list kn draws"
  have tags: "\<forall>i < n_spins kn. ?pl ! i = ''x'' \<or> ?pl ! i = ''z''"
    using random_paulis_list_tags by blast
  have first: "quasi_inverse_step kn ?pl 0 qc = Inr (qc @ quasi_first_step kn ?pl)" for qc
    by (rule quasi_inverse_step_first [OF assms(1,2,3) random_paulis_list_length assms(4) tags])
  have later: "for_each [Suc 0..<K kn] (quasi_inverse_step kn ?pl) qc =
        Inr (qc @ concat (replicate (length [Suc 0..<K kn]) (heisenberg_inverse_step kn)))" for qc
    by (rule for_each_const) (simp add: quasi_inverse_step_later [OF assms(1,2,3)])
  have split: "[0..<K kn] = 0 # [Suc 0..<K kn]"
    using assms(5) by (simp add: upt_conv_Cons)
  show ?thesis
    unfolding heisenberg_create_quasi_inverse_hamiltonian_def Let_def split
    by (simp add: first later)
qed

section \<open>Operators: products, inverses and commuting gates\<close>

lemma apply_matrix_same:
  "apply_matrix m q (apply_matrix m' q psi) = apply_matrix (matrix_mult m m') q psi"
  by (cases m; cases m') (auto simp: apply_matrix_def fun_eq_iff algebra_simps)

lemma apply_matrix_id: "apply_matrix (1, 0, 0, 1) q psi = psi"
proof
  fix x
  show "apply_matrix (1, 0, 0, 1) q psi x = psi x"
  proof (cases "x q")
    case True
    then have "x(q := True) = x" by (auto simp: fun_eq_iff)
    with True show ?thesis by (simp add: apply_matrix_def)
  next
    case False
    then have "x(q := False) = x" by (auto simp: fun_eq_iff)
    with False show ?thesis by (simp add: apply_matrix_def)
  qed
qed

lemma apply_matrix_commute:
  assumes "q \<noteq> r"
  shows "apply_matrix m q (apply_matrix m' r psi) = apply_matrix m' r (apply_matrix m q psi)"
proof -
  have tw: "x(q := u, r := v) = x(r := v, q := u)" for x :: basis and u v
    using assms by (rule fun_upd_twist)
  show ?thesis
    using assms
    by (cases m; cases m') (auto simp: apply_matrix_def fun_eq_iff tw algebra_simps)
qed

lemma apply_cx_cx:
  assumes "c \<noteq> tg"
  shows "apply_cx c tg (apply_cx c tg psi) = psi"
proof
  fix x :: basis
  have "x(tg := (x tg \<noteq> x c), tg := ((x tg \<noteq> x c) \<noteq> x c)) = x"
    by (auto simp: fun_eq_iff)
  then show "apply_cx c tg (apply_cx c tg psi) x = psi x"
    using assms by (simp add: apply_cx_def)
qed

lemma apply_diagonal_twice:
  "apply_diagonal f (apply_diagonal g psi) = apply_diagonal (\<lambda>x. f x * g x) psi"
  by (simp add: apply_diagonal_def fun_eq_iff)

lemma apply_diagonal_commute:
  "apply_diagonal f (apply_diagonal g psi) = apply_diagonal g (apply_diagonal f psi)"
  by (simp add: apply_diagonal_def fun_eq_iff)

lemma apply_diagonal_one: "apply_diagonal (\<lambda>x. 1) psi = psi"
  by (simp add: apply_diagonal_def)

lemma apply_matrix_diagonal_commute:
  assumes "\<And>x v. f (x(q := v)) = f x"
  shows "apply_matrix m q (apply_diagonal f psi) = apply_diagonal f (apply_matrix m q psi)"
  by (cases m) (auto simp: apply_matrix_def apply_diagonal_def fun_eq_iff assms algebra_simps)

lemma zz_sequence:
  assumes "a \<noteq> b"
  shows "apply_cx a b (apply_matrix (rz_matrix th) b (apply_cx a b psi))
         = apply_diagonal (zz_phase th a b) psi"
proof
  fix x :: basis
  have e1: "x(b := (x b \<noteq> x a), b := True, b := \<not> x a) = x" if "x b \<noteq> x a"
    using that by (auto simp: fun_eq_iff)
  have e2: "x(b := (x b \<noteq> x a), b := False, b := x a) = x" if "x b = x a"
    using that by (auto simp: fun_eq_iff)
  show "apply_cx a b (apply_matrix (rz_matrix th) b (apply_cx a b psi)) x
         = apply_diagonal (zz_phase th a b) psi x"
    using assms e1 e2
    by (cases "x b = x a") (auto simp: apply_cx_def apply_matrix_def apply_diagonal_def zz_phase_def rz_matrix_def)
qed

lemma half_sqrt: "complex_of_real (1 / sqrt 2) * complex_of_real (1 / sqrt 2) = 1 / 2"
proof -
  have "(1 / sqrt 2) * (1 / sqrt 2) = (1 / 2 :: real)" by simp
  then have "complex_of_real ((1 / sqrt 2) * (1 / sqrt 2)) = complex_of_real (1 / 2)"
    by (rule arg_cong)
  then show ?thesis by (simp only: of_real_mult of_real_divide of_real_1 of_real_numeral)
qed

lemma cos_sin_one:
  "complex_of_real (cos a) * complex_of_real (cos a)
   + complex_of_real (sin a) * complex_of_real (sin a) = 1"
proof -
  have "cos a * cos a + sin a * sin a = 1"
    using sin_cos_squared_add2 [of a] by (simp add: power2_eq_square)
  then have "complex_of_real (cos a * cos a + sin a * sin a) = complex_of_real 1"
    by (rule arg_cong)
  then show ?thesis by (simp only: of_real_mult of_real_add of_real_1)
qed

lemma matrix_h: "matrix_mult hadamard hadamard = (1, 0, 0, 1)"
  using half_sqrt by (simp add: hadamard_def)

lemma matrix_x: "matrix_mult pauli_x pauli_x = (1, 0, 0, 1)"
  by (simp add: pauli_x_def)

lemma matrix_z: "matrix_mult pauli_z pauli_z = (1, 0, 0, 1)"
  by (simp add: pauli_z_def)

lemma matrix_s: "matrix_mult phase_sdg phase_s = (1, 0, 0, 1)"
  by (simp add: phase_s_def phase_sdg_def)

lemma matrix_sdg: "matrix_mult phase_s phase_sdg = (1, 0, 0, 1)"
  by (simp add: phase_s_def phase_sdg_def)

lemma matrix_rx: "matrix_mult (rx_matrix (- th)) (rx_matrix th) = (1, 0, 0, 1)"
  using cos_sin_one [of "th / 2"] by (simp add: rx_matrix_def algebra_simps)

lemma matrix_ry: "matrix_mult (ry_matrix (- th)) (ry_matrix th) = (1, 0, 0, 1)"
  using cos_sin_one [of "th / 2"] by (simp add: ry_matrix_def algebra_simps)

lemma matrix_rz: "matrix_mult (rz_matrix (- th)) (rz_matrix th) = (1, 0, 0, 1)"
  by (simp add: rz_matrix_def cis_mult)

lemma apply_gate_inverse:
  "distinct_qubits g \<Longrightarrow> apply_gate (inverse_gate g) (apply_gate g psi) = psi"
proof (induction g)
  case (CXGate c tg)
  then show ?case by (simp add: apply_cx_cx)
qed (simp_all only: inverse_gate.simps apply_gate.simps apply_matrix_same apply_matrix_id
       matrix_h matrix_x matrix_z matrix_s matrix_sdg matrix_rx matrix_ry matrix_rz)

lemma run_gates_append: "run_gates (gs @ gs') psi = run_gates gs' (run_gates gs psi)"
  by (induction gs arbitrary: psi) simp_all

lemma run_gates_adjoint:
  "list_all distinct_qubits gs \<Longrightarrow> run_gates (gs @ adjoint gs) psi = psi"
proof (induction gs arbitrary: psi)
  case Nil
  then show ?case by (simp add: adjoint_def)
next
  case (Cons g gs)
  have "run_gates ((g # gs) @ adjoint (g # gs)) psi
      = apply_gate (inverse_gate g) (run_gates (gs @ adjoint gs) (apply_gate g psi))"
    by (simp add: adjoint_def run_gates_append)
  also have "\<dots> = apply_gate (inverse_gate g) (apply_gate g psi)"
    using Cons by simp
  also have "\<dots> = psi"
    using Cons.prems by (simp add: apply_gate_inverse)
  finally show ?case .
qed

lemma on_qubits_inverse: "on_qubits qs (inverse_gate g) = inverse_gate (on_qubits qs g)"
  by (cases g) simp_all

lemma on_qubits_adjoint: "map (on_qubits qs) (adjoint gs) = adjoint (map (on_qubits qs) gs)"
  by (simp add: adjoint_def rev_map on_qubits_inverse)

lemma mirror_is_adjoint: "xxyyzz_opt_gate_mirror ta = adjoint (xxyyzz_opt_gate ta)"
  by (simp add: xxyyzz_opt_gate_mirror_def xxyyzz_opt_gate_def adjoint_def Let_def)

lemma fused_is_adjoint: "xxyyzz_opt_gate ta = adjoint (xxyyzz_opt_gate_mirror ta)"
  by (simp add: xxyyzz_opt_gate_mirror_def xxyyzz_opt_gate_def adjoint_def Let_def)

lemma zz_mirror_is_adjoint: "zz_gate_mirror ta = adjoint (zz_gate ta)"
  by (simp add: zz_gate_mirror_def zz_gate_def adjoint_def)

lemma run_append: "run (xs @ ys) psi = run ys (run xs psi)"
  by (induction xs arbitrary: psi) simp_all

lemma run_commute_list:
  assumes "\<And>p psi. p \<in> set ps \<Longrightarrow>
             apply_op o1 (apply_op (f p) psi) = apply_op (f p) (apply_op o1 psi)"
  shows "apply_op o1 (run (map f ps) psi) = run (map f ps) (apply_op o1 psi)"
  using assms by (induction ps arbitrary: psi) simp_all

lemma run_cancel_commuting:
  assumes "distinct ps"
    and "\<And>p psi. p \<in> set ps \<Longrightarrow> apply_op (g p) (apply_op (f p) psi) = psi"
    and "\<And>p q psi. p \<in> set ps \<Longrightarrow> q \<in> set ps \<Longrightarrow> p \<noteq> q \<Longrightarrow>
           apply_op (g p) (apply_op (f q) psi) = apply_op (f q) (apply_op (g p) psi)"
  shows "run (map f ps @ map g ps) psi = psi"
  using assms
proof (induction ps arbitrary: psi)
  case Nil
  then show ?case by simp
next
  case (Cons p ps)
  have c: "apply_op (g p) (run (map f ps) phi) = run (map f ps) (apply_op (g p) phi)" for phi
  proof (rule run_commute_list)
    fix q chi assume "q \<in> set ps"
    then have "q \<noteq> p" "q \<in> set (p # ps)" using Cons.prems(1) by auto
    then show "apply_op (g p) (apply_op (f q) chi) = apply_op (f q) (apply_op (g p) chi)"
      using Cons.prems(3) [of p q chi] by simp
  qed
  have "run (map f (p # ps) @ map g (p # ps)) psi
      = run (map g ps) (apply_op (g p) (run (map f ps) (apply_op (f p) psi)))"
    by (simp add: run_append)
  also have "\<dots> = run (map g ps) (run (map f ps) (apply_op (g p) (apply_op (f p) psi)))"
    by (simp only: c)
  also have "\<dots> = run (map g ps) (run (map f ps) psi)"
    using Cons.prems(2) [of p psi] by simp
  also have "\<dots> = run (map f ps @ map g ps) psi"
    by (simp add: run_append)
  also have "\<dots> = psi"
  proof (rule Cons.IH)
    show "distinct ps" using Cons.prems(1) by simp
  next
    fix q chi assume "q \<in> set ps"
    then show "apply_op (g q) (apply_op (f q) chi) = chi"
      using Cons.prems(2) [of q chi] by simp
  next
    fix q r chi assume "q \<in> set ps" "r \<in> set ps" "q \<noteq> r"
    then show "apply_op (g q) (apply_op (f r) chi) = apply_op (f r) (apply_op (g q) chi)"
      using Cons.prems(3) [of q r chi] by simp
  qed
  finally show ?case .
qed

lemma run_cancel_reversed:
  assumes "\<And>p psi. p \<in> set ps \<Longrightarrow> apply_op (g p) (apply_op (f p) psi) = psi"
  shows "run (map f ps @ map g (rev ps)) psi = psi"
  using assms
proof (induction ps arbitrary: psi)
  case Nil
  then show ?case by simp
next
  case (Cons p ps)
  have "run (map f (p # ps) @ map g (rev (p # ps))) psi
      = apply_op (g p) (run (map f ps @ map g (rev ps)) (apply_op (f p) psi))"
    by (simp add: run_append)
  also have "\<dots> = apply_op (g p) (apply_op (f p) psi)"
    using Cons by simp
  also have "\<dots> = psi"
    using Cons.prems [of p psi] by simp
  finally show ?case .
qed

lemma concat_replicate_snoc:
  "concat (replicate (Suc m) xs) = concat (replicate m xs) @ xs"
  by (induction m) simp_all

lemma run_replicate_cancel:
  assumes "\<And>psi. run (xs @ ys) psi = psi"
  shows "run (concat (replicate m xs) @ concat (replicate m ys)) psi = psi"
proof (induction m arbitrary: psi)
  case 0
  then show ?case by simp
next
  case (Suc m)
  have x: "concat (replicate (Suc m) xs) = concat (replicate m xs) @ xs"
    by (rule concat_replicate_snoc)
  have a: "run ys (run xs phi) = phi" for phi
    using assms [of phi] by (simp add: run_append)
  have "run (concat (replicate (Suc m) xs) @ concat (replicate (Suc m) ys)) psi
      = run (concat (replicate m ys)) (run (xs @ ys) (run (concat (replicate m xs)) psi))"
    unfolding x by (simp add: run_append)
  also have "\<dots> = run (concat (replicate m xs) @ concat (replicate m ys)) psi"
    by (simp add: a run_append)
  also have "\<dots> = psi" by (rule Suc.IH)
  finally show ?case .
qed

lemma zz_phase_cancel: "zz_phase (- th) a b x * zz_phase th a b x = 1"
  by (simp add: zz_phase_def cis_mult)

lemma zz_phase_independent:
  "q \<noteq> a \<Longrightarrow> q \<noteq> b \<Longrightarrow> zz_phase th a b (x(q := v)) = zz_phase th a b x"
  by (simp add: zz_phase_def)

lemma conjugated_zz_cancel:
  assumes "a \<noteq> b"
    and "matrix_mult u v' = (1, 0, 0, 1)" and "matrix_mult u' v = (1, 0, 0, 1)"
  shows "conjugated_zz u u' (- th) a b (conjugated_zz v v' th a b psi) = psi"
proof -
  have "(\<lambda>x. zz_phase (- th) a b x * zz_phase th a b x) = (\<lambda>x. 1)"
    by (simp add: zz_phase_cancel)
  then show ?thesis
    unfolding conjugated_zz_def
    by (simp only: apply_matrix_commute [OF assms(1)] apply_matrix_same assms(2,3)
        apply_matrix_id apply_diagonal_twice apply_diagonal_one)
qed

lemma conjugated_zz_commute_disjoint:
  assumes "a \<noteq> c" "a \<noteq> d" "b \<noteq> c" "b \<noteq> d"
  shows "conjugated_zz v v th a b (conjugated_zz v v th' c d psi)
       = conjugated_zz v v th' c d (conjugated_zz v v th a b psi)"
proof -
  have i1: "zz_phase th' c d (x(a := u)) = zz_phase th' c d x" for x u
    using assms by (simp add: zz_phase_independent)
  have i2: "zz_phase th' c d (x(b := u)) = zz_phase th' c d x" for x u
    using assms by (simp add: zz_phase_independent)
  have i3: "zz_phase th a b (x(c := u)) = zz_phase th a b x" for x u
    using assms by (simp add: zz_phase_independent)
  have i4: "zz_phase th a b (x(d := u)) = zz_phase th a b x" for x u
    using assms by (simp add: zz_phase_independent)
  show ?thesis
    unfolding conjugated_zz_def
    by (simp only: apply_matrix_commute [OF assms(1)] apply_matrix_commute [OF assms(2)]
        apply_matrix_commute [OF assms(3)] apply_matrix_commute [OF assms(4)]
        apply_matrix_diagonal_commute [of "zz_phase th' c d" a, OF i1]
        apply_matrix_diagonal_commute [of "zz_phase th' c d" b, OF i2]
        apply_matrix_diagonal_commute [of "zz_phase th a b" c, OF i3, symmetric]
        apply_matrix_diagonal_commute [of "zz_phase th a b" d, OF i4, symmetric]
        apply_diagonal_commute [of "zz_phase th a b" "zz_phase th' c d"])
qed

lemma conjugated_zz_commute_shared:
  assumes "a \<noteq> b" "b \<noteq> c" "a \<noteq> c" and vv: "matrix_mult v v = (1, 0, 0, 1)"
  shows "conjugated_zz v v th a b (conjugated_zz v v th' b c psi)
       = conjugated_zz v v th' b c (conjugated_zz v v th a b psi)"
proof -
  let ?A = "apply_matrix v a" and ?B = "apply_matrix v b" and ?C = "apply_matrix v c"
  let ?D1 = "apply_diagonal (zz_phase th a b)" and ?D2 = "apply_diagonal (zz_phase th' b c)"
  have i1: "zz_phase th a b (x(c := u)) = zz_phase th a b x" for x u
    using assms by (simp add: zz_phase_independent)
  have i2: "zz_phase th' b c (x(a := u)) = zz_phase th' b c x" for x u
    using assms by (simp add: zz_phase_independent)
  have ba: "c \<noteq> a" "c \<noteq> b" "b \<noteq> a" using assms by auto
  have left: "conjugated_zz v v th a b (conjugated_zz v v th' b c psi)
            = ?A (?B (?C (?D1 (?D2 (?A (?B (?C psi)))))))"
    unfolding conjugated_zz_def
    by (simp only: apply_matrix_commute [OF assms(3)]
        apply_matrix_diagonal_commute [of "zz_phase th a b" c, OF i1, symmetric]
        apply_matrix_diagonal_commute [of "zz_phase th' b c" a, OF i2]
        apply_matrix_commute [OF assms(1)] apply_matrix_commute [OF ba(2)]
        apply_matrix_same vv apply_matrix_id)
  have right: "conjugated_zz v v th' b c (conjugated_zz v v th a b psi)
            = ?A (?B (?C (?D2 (?D1 (?A (?B (?C psi)))))))"
    unfolding conjugated_zz_def
    by (simp only: apply_matrix_commute [OF ba(1)]
        apply_matrix_diagonal_commute [of "zz_phase th' b c" a, OF i2, symmetric]
        apply_matrix_diagonal_commute [of "zz_phase th a b" c, OF i1]
        apply_matrix_commute [OF ba(2)] apply_matrix_commute [OF assms(1)]
        apply_matrix_same vv apply_matrix_id)
  show ?thesis
    unfolding left right by (simp only: apply_diagonal_commute [of "zz_phase th a b"])
qed

lemma fused_block_cancel:
  assumes "a \<noteq> b"
  shows "apply_op (Instr (xxyyzz_opt_gate_mirror ta) [a, b])
           (apply_op (Instr (xxyyzz_opt_gate ta) [a, b]) psi) = psi"
proof -
  let ?g = "map (on_qubits [a, b]) (xxyyzz_opt_gate ta)"
  have d: "list_all distinct_qubits ?g"
    using assms by (simp add: xxyyzz_opt_gate_def Let_def)
  have "apply_op (Instr (xxyyzz_opt_gate_mirror ta) [a, b])
           (apply_op (Instr (xxyyzz_opt_gate ta) [a, b]) psi)
      = run_gates (?g @ adjoint ?g) psi"
    by (simp only: apply_op.simps run_gates_append mirror_is_adjoint on_qubits_adjoint)
  then show ?thesis
    using run_gates_adjoint [OF d] by simp
qed

lemma zz_block:
  assumes "a \<noteq> b"
  shows "apply_op (Instr (zz_gate ta) [a, b]) psi = apply_diagonal (zz_phase (pi * ta) a b) psi"
  using assms by (simp add: zz_gate_def zz_sequence)

lemma zz_mirror_block:
  assumes "a \<noteq> b"
  shows "apply_op (Instr (zz_gate_mirror ta) [a, b]) psi
       = apply_diagonal (zz_phase (- (pi * ta)) a b) psi"
  using assms by (simp add: zz_gate_mirror_def zz_sequence)

lemma xx_block:
  assumes "a \<noteq> b"
  shows "apply_op (Instr (xx_gate ta) [a, b]) psi
       = conjugated_zz hadamard hadamard (pi * ta) a b psi"
  using assms by (simp add: xx_gate_def zz_sequence conjugated_zz_def)

lemma xx_mirror_block:
  assumes "a \<noteq> b"
  shows "apply_op (Instr (xx_gate_mirror ta) [a, b]) psi
       = conjugated_zz hadamard hadamard (- (pi * ta)) a b psi"
  using assms by (simp add: xx_gate_mirror_def zz_sequence conjugated_zz_def)

lemma yy_block:
  assumes "a \<noteq> b"
  shows "apply_op (Instr (yy_gate ta) [a, b]) psi
       = conjugated_zz (matrix_mult hadamard phase_s) (matrix_mult phase_sdg hadamard)
           (pi * ta) a b psi"
  using assms
  by (simp add: yy_gate_def zz_sequence conjugated_zz_def
      apply_matrix_commute [OF assms] apply_matrix_same [symmetric])

lemma yy_mirror_block:
  assumes "a \<noteq> b"
  shows "apply_op (Instr (yy_gate_mirror ta) [a, b]) psi
       = conjugated_zz (matrix_mult hadamard phase_s) (matrix_mult phase_sdg hadamard)
           (- (pi * ta)) a b psi"
  using assms
  by (simp add: yy_gate_mirror_def zz_sequence conjugated_zz_def
      apply_matrix_commute [OF assms] apply_matrix_same [symmetric])

lemma matrix_hs_1:
  "matrix_mult (matrix_mult hadamard phase_s) (matrix_mult phase_sdg hadamard) = (1, 0, 0, 1)"
  using half_sqrt by (simp add: hadamard_def phase_s_def phase_sdg_def)

lemma matrix_hs_2:
  "matrix_mult (matrix_mult phase_sdg hadamard) (matrix_mult hadamard phase_s) = (1, 0, 0, 1)"
  using half_sqrt by (simp add: hadamard_def phase_s_def phase_sdg_def)

lemma zz_loop_cancel:
  "run (map (\<lambda>i. Instr (zz_gate_mirror ta) [i, Suc i]) ps)
     (run (map (\<lambda>i. Instr (zz_gate ta) [i, Suc i]) ps) psi) = psi"
proof (induction ps arbitrary: psi)
  case Nil
  then show ?case by simp
next
  case (Cons p ps)
  have c: "apply_op (Instr (zz_gate_mirror ta) [p, Suc p])
             (run (map (\<lambda>i. Instr (zz_gate ta) [i, Suc i]) ps) phi)
         = run (map (\<lambda>i. Instr (zz_gate ta) [i, Suc i]) ps)
             (apply_op (Instr (zz_gate_mirror ta) [p, Suc p]) phi)" for phi
    by (rule run_commute_list) (simp only: zz_block zz_mirror_block n_not_Suc_n not_False_eq_True
        apply_diagonal_commute [of "zz_phase (- (pi * ta)) p (Suc p)"])
  have k: "apply_op (Instr (zz_gate_mirror ta) [p, Suc p])
             (apply_op (Instr (zz_gate ta) [p, Suc p]) phi) = phi" for phi
    by (simp add: zz_block zz_mirror_block apply_diagonal_twice zz_phase_cancel apply_diagonal_one
        del: apply_op.simps)
  show ?case
    by (simp only: list.map run.simps c k Cons.IH)
qed

lemma yy_loop_cancel:
  "run (map (\<lambda>i. Instr (yy_gate_mirror ta) [i, Suc i]) (rev ps))
     (run (map (\<lambda>i. Instr (yy_gate ta) [i, Suc i]) ps) psi) = psi"
proof -
  have "run (map (\<lambda>i. Instr (yy_gate ta) [i, Suc i]) ps @
             map (\<lambda>i. Instr (yy_gate_mirror ta) [i, Suc i]) (rev ps)) psi = psi"
    by (rule run_cancel_reversed)
       (simp add: yy_block yy_mirror_block conjugated_zz_cancel matrix_hs_1 matrix_hs_2
          del: apply_op.simps)
  then show ?thesis by (simp add: run_append)
qed

lemma fused_loop_cancel:
  "run (map (\<lambda>i. Instr (xxyyzz_opt_gate_mirror ta) [i, Suc i]) (rev ps))
     (run (map (\<lambda>i. Instr (xxyyzz_opt_gate ta) [i, Suc i]) ps) psi) = psi"
proof -
  have "run (map (\<lambda>i. Instr (xxyyzz_opt_gate ta) [i, Suc i]) ps @
             map (\<lambda>i. Instr (xxyyzz_opt_gate_mirror ta) [i, Suc i]) (rev ps)) psi = psi"
    by (rule run_cancel_reversed) (simp add: fused_block_cancel del: apply_op.simps)
  then show ?thesis by (simp add: run_append)
qed

lemma xx_pair_commute:
  assumes "p \<noteq> q"
  shows "apply_op (Instr (xx_gate_mirror ta) [p, Suc p]) (apply_op (Instr (xx_gate ta) [q, Suc q]) psi)
       = apply_op (Instr (xx_gate ta) [q, Suc q]) (apply_op (Instr (xx_gate_mirror ta) [p, Suc p]) psi)"
proof -
  let ?m = "conjugated_zz hadamard hadamard (- (pi * ta))"
  let ?f = "conjugated_zz hadamard hadamard (pi * ta)"
  have "?m p (Suc p) (?f q (Suc q) psi) = ?f q (Suc q) (?m p (Suc p) psi)"
  proof (cases "q = Suc p")
    case True
    show ?thesis
      unfolding True
      by (rule conjugated_zz_commute_shared) (simp_all add: matrix_h)
  next
    case False
    show ?thesis
    proof (cases "p = Suc q")
      case True
      show ?thesis
        unfolding True
        by (rule conjugated_zz_commute_shared [symmetric]) (simp_all add: matrix_h)
    next
      case qp: False
      show ?thesis
        by (rule conjugated_zz_commute_disjoint) (use assms False qp in auto)
    qed
  qed
  then show ?thesis by (simp add: xx_block xx_mirror_block del: apply_op.simps)
qed

lemma xx_loop_cancel:
  assumes "distinct ps"
  shows "run (map (\<lambda>i. Instr (xx_gate_mirror ta) [i, Suc i]) ps)
     (run (map (\<lambda>i. Instr (xx_gate ta) [i, Suc i]) ps) psi) = psi"
proof -
  have "run (map (\<lambda>i. Instr (xx_gate ta) [i, Suc i]) ps @
             map (\<lambda>i. Instr (xx_gate_mirror ta) [i, Suc i]) ps) psi = psi"
  proof (rule run_cancel_commuting [OF assms])
    fix p phi
    show "apply_op (Instr (xx_gate_mirror ta) [p, Suc p])
            (apply_op (Instr (xx_gate ta) [p, Suc p]) phi) = phi"
      by (simp add: xx_block xx_mirror_block conjugated_zz_cancel matrix_h del: apply_op.simps)
  next
    fix p q :: nat and phi assume "p \<noteq> q"
    then show "apply_op (Instr (xx_gate_mirror ta) [p, Suc p]) (apply_op (Instr (xx_gate ta) [q, Suc q]) phi)
       = apply_op (Instr (xx_gate ta) [q, Suc q]) (apply_op (Instr (xx_gate_mirror ta) [p, Suc p]) phi)"
      by (rule xx_pair_commute)
  qed
  then show ?thesis by (simp add: run_append)
qed

lemma rz_layer_cancel:
  assumes "distinct qs"
  shows "run (map (\<lambda>i. Prim (RZGate (- f i) i)) qs)
           (run (map (\<lambda>i. Prim (RZGate (f i) i)) qs) psi) = psi"
proof -
  have "run (map (\<lambda>i. Prim (RZGate (f i) i)) qs @ map (\<lambda>i. Prim (RZGate (- f i) i)) qs) psi = psi"
  proof (rule run_cancel_commuting [OF assms])
    fix p phi
    show "apply_op (Prim (RZGate (- f p) p)) (apply_op (Prim (RZGate (f p) p)) phi) = phi"
      using apply_gate_inverse [of "RZGate (f p) p" phi] by simp
  next
    fix p q :: nat and phi assume "p \<noteq> q"
    then show "apply_op (Prim (RZGate (- f p) p)) (apply_op (Prim (RZGate (f q) q)) phi)
             = apply_op (Prim (RZGate (f q) q)) (apply_op (Prim (RZGate (- f p) p)) phi)"
      by (simp add: apply_matrix_commute)
  qed
  then show ?thesis by (simp add: run_append)
qed

lemma rx_layer_cancel:
  assumes "distinct qs"
  shows "run (map (\<lambda>i. Prim (RXGate (- f i) i)) qs)
           (run (map (\<lambda>i. Prim (RXGate (f i) i)) qs) psi) = psi"
proof -
  have "run (map (\<lambda>i. Prim (RXGate (f i) i)) qs @ map (\<lambda>i. Prim (RXGate (- f i) i)) qs) psi = psi"
  proof (rule run_cancel_commuting [OF assms])
    fix p phi
    show "apply_op (Prim (RXGate (- f p) p)) (apply_op (Prim (RXGate (f p) p)) phi) = phi"
      using apply_gate_inverse [of "RXGate (f p) p" phi] by simp
  next
    fix p q :: nat and phi assume "p \<noteq> q"
    then show "apply_op (Prim (RXGate (- f p) p)) (apply_op (Prim (RXGate (f q) q)) phi)
             = apply_op (Prim (RXGate (f q) q)) (apply_op (Prim (RXGate (- f p) p)) phi)"
      by (simp add: apply_matrix_commute)
  qed
  then show ?thesis by (simp add: run_append)
qed

lemma heisenberg_step_cancel:
  "run (heisenberg_step kn @ heisenberg_inverse_step kn) psi = psi"
  unfolding heisenberg_step_def heisenberg_inverse_step_def coupling_loop_eq
    coupling_loop_reversed_eq
  by (simp add: run_append fused_loop_cancel zz_loop_cancel yy_loop_cancel xx_loop_cancel
      brick_pairs_distinct rz_layer_cancel rx_layer_cancel)

lemma tfim_step_cancel:
  "run (tfim_step kn @ tfim_inverse_step (kn\<lparr>h := Some 0.2\<rparr>) 0.2) psi = psi"
  unfolding tfim_step_def tfim_inverse_step_def coupling_loop_eq
  using rx_layer_cancel [of "[0..<n_spins kn]" "\<lambda>i. 2 * tau kn * 0.2"]
  by (simp add: run_append zz_loop_cancel)

lemma twirl_op_draw:
  "i < n_spins kn \<Longrightarrow>
   twirl_op (random_paulis_list kn draws) i = (if draws i then Prim (XGate i) else Prim (ZGate i))"
  by (simp add: twirl_op_def random_paulis_list_nth np_random_choice_def)

lemma twirl_gates_draws:
  "twirl_gates (random_paulis_list kn draws) =
   map (\<lambda>i. if draws i then Prim (XGate i) else Prim (ZGate i)) [0..<n_spins kn]"
  unfolding twirl_gates_eq random_paulis_list_length
  by (rule map_cong [OF refl]) (simp add: twirl_op_draw)

lemma brick_pairs_no_wrap: "Instr g [n - 1, 0] \<notin> set (coupling_loop n g)"
  unfolding coupling_loop_eq by auto

lemma for_each_first_raises:
  "0 < m \<Longrightarrow> body 0 qc = Inl e \<Longrightarrow> for_each [0..<m] body qc = Inl e"
  by (simp add: upt_conv_Cons)

section \<open>The coupling pattern of a Trotter step\<close>

text \<open>
  Claim C2 fails at \<open>n_spins = 4\<close>: the step couples the pairs (0,1), (2,3) and (1,2) and
  no gate joins qubit 3 to qubit 0.
\<close>

theorem forward_step_no_wraparound_at_4:
  "heisenberg_create_hamiltonian
     \<lparr>n_spins = 4, K = 1, t = 1, tau = 1, w = 1, h_x = [0, 0, 0, 0], h_z = [0, 0, 0, 0],
      use_XX_YY_ZZ_gates = False, h = None\<rparr>
   = Inr [Prim (RXGate 0 0), Prim (RXGate 0 1), Prim (RXGate 0 2), Prim (RXGate 0 3),
          Prim (RZGate 0 0), Prim (RZGate 0 1), Prim (RZGate 0 2), Prim (RZGate 0 3),
          Prim Barrier,
          Instr (xxyyzz_opt_gate 1) [0, 1], Instr (xxyyzz_opt_gate 1) [2, 3],
          Instr (xxyyzz_opt_gate 1) [1, 2],
          Prim Barrier]"
  by (simp add: heisenberg_create_hamiltonian_def local_rotations_def lookup_def py_get_def
      coupling_loop_def py_range_def upt_rec)

text \<open>
  C2 as amended: every coupling loop of a Trotter step appends one gate on each pair
  \<open>(i, i + 1)\<close> with \<open>i < n_spins - 1\<close>, the even \<open>i\<close> in pass 0 and the odd \<open>i\<close> in pass 1,
  each pair once, and never a gate on the pair \<open>(n_spins - 1, 0)\<close>: the chain is open.
  The forward circuits of both models are \<open>K\<close> copies of the field rotations followed by
  such loops.
\<close>

theorem forward_step_couples_open_chain:
  "coupling_loop n g =
     map (\<lambda>i. Instr g [i, Suc i]) (py_range 0 (n - 1) 2 @ py_range 1 (n - 1) 2)
   \<and> distinct (py_range 0 (n - 1) 2 @ py_range 1 (n - 1) 2)
   \<and> set (py_range 0 (n - 1) 2) = {i. i < n - 1 \<and> even i}
   \<and> set (py_range 1 (n - 1) 2) = {i. i < n - 1 \<and> odd i}
   \<and> Instr g [n - 1, 0] \<notin> set (coupling_loop n g)
   \<and> (n_spins kn \<le> length (h_x kn) \<and> n_spins kn \<le> length (h_z kn) \<longrightarrow>
      heisenberg_create_hamiltonian kn =
        Inr (concat (replicate (K kn)
          (map (\<lambda>i. Prim (RXGate (2 * tau kn * w kn * h_x kn ! i) i)) [0..<n_spins kn] @
           map (\<lambda>i. Prim (RZGate (2 * tau kn * w kn * h_z kn ! i) i)) [0..<n_spins kn] @
           [Prim Barrier] @
           (if use_XX_YY_ZZ_gates kn
            then coupling_loop (n_spins kn) (xx_gate (tau kn)) @
                 coupling_loop (n_spins kn) (yy_gate (tau kn)) @
                 coupling_loop (n_spins kn) (zz_gate (tau kn))
            else coupling_loop (n_spins kn) (xxyyzz_opt_gate (tau kn))) @
           [Prim Barrier]))))
   \<and> fst (tfim_create_hamiltonian kn) =
        concat (replicate (K kn)
          (map (\<lambda>i. Prim (RXGate (2 * tau kn * 0.2) i)) [0..<n_spins kn] @
           [Prim Barrier] @ coupling_loop (n_spins kn) (zz_gate (tau kn)) @ [Prim Barrier]))"
proof -
  have a: "coupling_loop n g =
     map (\<lambda>i. Instr g [i, Suc i]) (py_range 0 (n - 1) 2 @ py_range 1 (n - 1) 2)"
    using coupling_loop_eq [of n g] by (simp only: brick_pairs_def)
  have b: "distinct (py_range 0 (n - 1) 2 @ py_range 1 (n - 1) 2)"
    using brick_pairs_distinct [of n] by (simp only: brick_pairs_def)
  have c: "set (py_range 0 (n - 1) 2) = {i. i < n - 1 \<and> even i}"
    using py_range_even by blast
  have d: "set (py_range 1 (n - 1) 2) = {i. i < n - 1 \<and> odd i}"
    using py_range_odd by blast
  have e: "n_spins kn \<le> length (h_x kn) \<and> n_spins kn \<le> length (h_z kn) \<longrightarrow>
      heisenberg_create_hamiltonian kn = Inr (concat (replicate (K kn) (heisenberg_step kn)))"
    using heisenberg_create_hamiltonian_ok by blast
  have f: "fst (tfim_create_hamiltonian kn) = concat (replicate (K kn) (tfim_step kn))"
    by (simp add: tfim_create_hamiltonian_eq)
  show ?thesis
    using a b c d e f brick_pairs_no_wrap [of g n]
    unfolding heisenberg_step_def tfim_step_def by blast
qed

theorem forward_step_couples_open_chain_witness:
  "(2 \<le> length [0, 0::real] \<and> 2 \<le> length [0, 0::real]) \<and>
   heisenberg_create_hamiltonian
     \<lparr>n_spins = 2, K = 1, t = 1, tau = 1, w = 1, h_x = [0, 0], h_z = [0, 0],
      use_XX_YY_ZZ_gates = False, h = None\<rparr>
   = Inr [Prim (RXGate 0 0), Prim (RXGate 0 1), Prim (RZGate 0 0), Prim (RZGate 0 1),
          Prim Barrier, Instr (xxyyzz_opt_gate 1) [0, 1], Prim Barrier]"
  using forward_step_couples_open_chain
    [of 2 "xxyyzz_opt_gate 1"
        "\<lparr>n_spins = 2, K = 1, t = 1, tau = 1, w = 1, h_x = [0, 0], h_z = [0, 0],
          use_XX_YY_ZZ_gates = False, h = None\<rparr>"]
  by (simp add: py_range_def upt_rec)

section \<open>The exact inverse\<close>

text \<open>
  Claim C3 fails for the TFIM model at \<open>n_spins = 3\<close>: the inverse appends the mirror gate
  of pass 0, on the pair (0,1), before the one of pass 1, on the pair (1,2).
\<close>

theorem tfim_inverse_forward_pass_order_at_3:
  "tfim_create_inverse_hamiltonian
     \<lparr>n_spins = 3, K = 1, t = 1, tau = 1, w = 1, h_x = [], h_z = [],
      use_XX_YY_ZZ_gates = False, h = Some 0.2\<rparr>
   = Inr [Instr (zz_gate_mirror 1) [0, 1], Instr (zz_gate_mirror 1) [1, 2], Prim Barrier,
          Prim (RXGate (- 0.4) 0), Prim (RXGate (- 0.4) 1), Prim (RXGate (- 0.4) 2),
          Prim Barrier]"
  by (simp add: tfim_create_inverse_hamiltonian_def tfim_field_rotations_def coupling_loop_def
      py_range_def upt_rec)

text \<open>
  C3 as amended: each of the \<open>K\<close> steps of \<open>create_inverse_hamiltonian\<close> appends mirror
  coupling gates, a barrier, the field rotations with negated angles (for Heisenberg all
  \<open>rz\<close> before all \<open>rx\<close>) and a barrier. Only the fused Heisenberg mode, and the YY group of
  the separate-axis mode, run the passes and the pairs in reverse order; the ZZ and XX
  groups of the separate-axis mode and the TFIM model run them in forward order. The
  separate-axis mode appends the groups in the order ZZ, YY, XX.
\<close>

theorem inverse_step_structure:
  "(n_spins kn \<le> length (h_x kn) \<and> n_spins kn \<le> length (h_z kn) \<longrightarrow>
      heisenberg_create_inverse_hamiltonian kn =
        Inr (concat (replicate (K kn)
          ((if use_XX_YY_ZZ_gates kn
            then map (\<lambda>i. Instr (zz_gate_mirror (tau kn)) [i, Suc i])
                   (py_range 0 (n_spins kn - 1) 2 @ py_range 1 (n_spins kn - 1) 2) @
                 map (\<lambda>i. Instr (yy_gate_mirror (tau kn)) [i, Suc i])
                   (rev (py_range 1 (n_spins kn - 1) 2) @ rev (py_range 0 (n_spins kn - 1) 2)) @
                 map (\<lambda>i. Instr (xx_gate_mirror (tau kn)) [i, Suc i])
                   (py_range 0 (n_spins kn - 1) 2 @ py_range 1 (n_spins kn - 1) 2)
            else map (\<lambda>i. Instr (xxyyzz_opt_gate_mirror (tau kn)) [i, Suc i])
                   (rev (py_range 1 (n_spins kn - 1) 2) @ rev (py_range 0 (n_spins kn - 1) 2))) @
           [Prim Barrier] @
           map (\<lambda>i. Prim (RZGate (- 2 * tau kn * w kn * h_z kn ! i) i)) [0..<n_spins kn] @
           map (\<lambda>i. Prim (RXGate (- 2 * tau kn * w kn * h_x kn ! i) i)) [0..<n_spins kn] @
           [Prim Barrier]))))
   \<and> (h kn = Some hv \<longrightarrow>
      tfim_create_inverse_hamiltonian kn =
        Inr (concat (replicate (K kn)
          (map (\<lambda>i. Instr (zz_gate_mirror (tau kn)) [i, Suc i])
             (py_range 0 (n_spins kn - 1) 2 @ py_range 1 (n_spins kn - 1) 2) @
           [Prim Barrier] @
           map (\<lambda>i. Prim (RXGate (- 2 * tau kn * hv) i)) [0..<n_spins kn] @
           [Prim Barrier]))))"
proof -
  have a: "n_spins kn \<le> length (h_x kn) \<and> n_spins kn \<le> length (h_z kn) \<longrightarrow>
      heisenberg_create_inverse_hamiltonian kn =
        Inr (concat (replicate (K kn) (heisenberg_inverse_step kn)))"
    using heisenberg_create_inverse_hamiltonian_ok by blast
  have b: "h kn = Some hv \<longrightarrow>
      tfim_create_inverse_hamiltonian kn = Inr (concat (replicate (K kn) (tfim_inverse_step kn hv)))"
    using tfim_create_inverse_hamiltonian_ok by blast
  show ?thesis
    using a b
    unfolding heisenberg_inverse_step_def tfim_inverse_step_def coupling_loop_eq
      coupling_loop_reversed_eq brick_pairs_def rev_append
    by blast
qed

theorem inverse_step_structure_witness:
  "(2 \<le> length [0, 0::real] \<and> 2 \<le> length [0, 0::real]) \<and>
   heisenberg_create_inverse_hamiltonian
     \<lparr>n_spins = 2, K = 1, t = 1, tau = 1, w = 1, h_x = [0, 0], h_z = [0, 0],
      use_XX_YY_ZZ_gates = False, h = Some 0.2\<rparr>
   = Inr [Instr (xxyyzz_opt_gate_mirror 1) [0, 1], Prim Barrier,
          Prim (RZGate 0 0), Prim (RZGate 0 1), Prim (RXGate 0 0), Prim (RXGate 0 1),
          Prim Barrier] \<and>
   tfim_create_inverse_hamiltonian
     \<lparr>n_spins = 2, K = 1, t = 1, tau = 1, w = 1, h_x = [0, 0], h_z = [0, 0],
      use_XX_YY_ZZ_gates = False, h = Some 0.2\<rparr>
   = Inr [Instr (zz_gate_mirror 1) [0, 1], Prim Barrier,
          Prim (RXGate (- 0.4) 0), Prim (RXGate (- 0.4) 1), Prim Barrier]"
  using inverse_step_structure
    [of "\<lparr>n_spins = 2, K = 1, t = 1, tau = 1, w = 1, h_x = [0, 0], h_z = [0, 0],
          use_XX_YY_ZZ_gates = False, h = Some 0.2\<rparr>" "0.2"]
  by (simp add: py_range_def upt_rec)

section \<open>The TFIM quasi-inverse\<close>

text \<open>
  Claim C4 at \<open>n_spins = 2\<close>, \<open>K = 1\<close>: the TFIM quasi-inverse is the exact inverse circuit.
  It holds no twirl gate, no quasi-mirror gate and no resultant state.
\<close>

theorem tfim_quasi_inverse_has_no_twirl:
  "tfim_create_quasi_inverse_hamiltonian
     \<lparr>n_spins = 2, K = 1, t = 1, tau = 1, w = 1, h_x = [0, 0], h_z = [0, 0],
      use_XX_YY_ZZ_gates = False, h = Some 0.2\<rparr>
   = Inr [Instr (zz_gate_mirror 1) [0, 1], Prim Barrier,
          Prim (RXGate (- 0.4) 0), Prim (RXGate (- 0.4) 1), Prim Barrier]"
  by (simp add: tfim_create_quasi_inverse_hamiltonian_def tfim_field_rotations_def
      coupling_loop_def py_range_def upt_rec)

section \<open>Field arrays that are too short\<close>

text \<open>
  Claim C5 fails for \<open>h_x\<close> of length 2 with \<open>n_spins = 4\<close>: the exception arrives after
  two rotations have been appended to the circuit under construction.
\<close>

theorem short_h_x_raises_after_two_gates:
  "heisenberg_create_hamiltonian
     \<lparr>n_spins = 4, K = 1, t = 1, tau = 1, w = 1, h_x = [1, 1], h_z = [1, 1, 1, 1],
      use_XX_YY_ZZ_gates = False, h = None\<rparr>
   = Inl (IndexError, [Prim (RXGate 2 0), Prim (RXGate 2 1)])"
  by (simp add: heisenberg_create_hamiltonian_def local_rotations_def lookup_def py_get_def upt_rec)

text \<open>
  C5 as amended: a Heisenberg build with \<open>K \<ge> 1\<close> whose \<open>h_x\<close> is shorter than \<open>n_spins\<close>
  raises an IndexError and returns no circuit; the exception is raised when the first
  missing entry is read, after the \<open>rx\<close> rotations of the qubits before it were appended
  to the local circuit. When \<open>h_x\<close> is long enough and \<open>h_z\<close> is too short, it is raised
  after all \<open>rx\<close> rotations and the \<open>rz\<close> rotations of the qubits that have an entry.
\<close>

theorem short_field_array_raises:
  "(0 < K kn \<and> length (h_x kn) < n_spins kn \<longrightarrow>
      heisenberg_create_hamiltonian kn =
        Inl (IndexError,
             map (\<lambda>i. Prim (RXGate (2 * tau kn * w kn * h_x kn ! i) i)) [0..<length (h_x kn)]))
   \<and> (0 < K kn \<and> n_spins kn \<le> length (h_x kn) \<and> length (h_z kn) < n_spins kn \<longrightarrow>
      heisenberg_create_hamiltonian kn =
        Inl (IndexError,
             map (\<lambda>i. Prim (RXGate (2 * tau kn * w kn * h_x kn ! i) i)) [0..<n_spins kn] @
             map (\<lambda>i. Prim (RZGate (2 * tau kn * w kn * h_z kn ! i) i)) [0..<length (h_z kn)]))"
proof (intro conjI impI)
  assume "0 < K kn \<and> length (h_x kn) < n_spins kn"
  then show "heisenberg_create_hamiltonian kn =
        Inl (IndexError,
             map (\<lambda>i. Prim (RXGate (2 * tau kn * w kn * h_x kn ! i) i)) [0..<length (h_x kn)])"
    unfolding heisenberg_create_hamiltonian_def
    by (intro for_each_first_raises) (simp_all add: local_rotations_short)
next
  assume "0 < K kn \<and> n_spins kn \<le> length (h_x kn) \<and> length (h_z kn) < n_spins kn"
  then show "heisenberg_create_hamiltonian kn =
        Inl (IndexError,
             map (\<lambda>i. Prim (RXGate (2 * tau kn * w kn * h_x kn ! i) i)) [0..<n_spins kn] @
             map (\<lambda>i. Prim (RZGate (2 * tau kn * w kn * h_z kn ! i) i)) [0..<length (h_z kn)])"
    unfolding heisenberg_create_hamiltonian_def
    by (intro for_each_first_raises) (simp_all add: local_rotations_short local_rotations_ok)
qed

theorem short_field_array_raises_witness:
  "((0::nat) < 1 \<and> length [1, 1::real] < 4) \<and>
   heisenberg_create_hamiltonian
     \<lparr>n_spins = 4, K = 1, t = 1, tau = 1, w = 1, h_x = [1, 1], h_z = [1, 1, 1, 1],
      use_XX_YY_ZZ_gates = False, h = None\<rparr>
   = Inl (IndexError, [Prim (RXGate 2 0), Prim (RXGate 2 1)])"
  using short_field_array_raises
    [of "\<lparr>n_spins = 4, K = 1, t = 1, tau = 1, w = 1, h_x = [1, 1], h_z = [1, 1, 1, 1],
          use_XX_YY_ZZ_gates = False, h = None\<rparr>"]
  by (simp add: upt_rec)

section \<open>The Heisenberg quasi-inverse\<close>



text \<open>
  C10: in the separate-axis mode the quasi-inverse is the twirl gates, a barrier, then in
  each of the \<open>K\<close> steps the ZZ, YY and XX mirror gates, each group in forward pass and
  pair order, a barrier, the negated field rotations and a barrier, and at the end the
  resultant state: no quasi-mirror gate and no boundary twirl gate.
\<close>

theorem quasi_inverse_separate_axis:
  assumes "use_XX_YY_ZZ_gates kn"
    and "n_spins kn \<le> length (h_x kn)" and "n_spins kn \<le> length (h_z kn)"
  shows "heisenberg_create_quasi_inverse_hamiltonian kn draws =
     Inr (map (\<lambda>i. if draws i then Prim (XGate i) else Prim (ZGate i)) [0..<n_spins kn] @
          [Prim Barrier] @
          concat (replicate (K kn)
            (map (\<lambda>i. Instr (zz_gate_mirror (tau kn)) [i, Suc i])
                 (py_range 0 (n_spins kn - 1) 2 @ py_range 1 (n_spins kn - 1) 2) @
             map (\<lambda>i. Instr (yy_gate_mirror (tau kn)) [i, Suc i])
                 (py_range 0 (n_spins kn - 1) 2 @ py_range 1 (n_spins kn - 1) 2) @
             map (\<lambda>i. Instr (xx_gate_mirror (tau kn)) [i, Suc i])
                 (py_range 0 (n_spins kn - 1) 2 @ py_range 1 (n_spins kn - 1) 2) @
             [Prim Barrier] @
             map (\<lambda>i. Prim (RZGate (- 2 * tau kn * w kn * h_z kn ! i) i)) [0..<n_spins kn] @
             map (\<lambda>i. Prim (RXGate (- 2 * tau kn * w kn * h_x kn ! i) i)) [0..<n_spins kn] @
             [Prim Barrier])) @
          [Instr (map XGate [0..<n_spins kn] @ [Barrier]) [0..<n_spins kn]])"
  using heisenberg_quasi_separate [OF assms, of draws]
  unfolding twirl_gates_draws quasi_separate_step_def coupling_loop_eq brick_pairs_def
    ResultantPauli_def
  by simp

theorem quasi_inverse_separate_axis_witness:
  "(True \<and> 2 \<le> length [0, 0::real] \<and> 2 \<le> length [0, 0::real]) \<and>
   heisenberg_create_quasi_inverse_hamiltonian
     \<lparr>n_spins = 2, K = 1, t = 1, tau = 1, w = 1, h_x = [0, 0], h_z = [0, 0],
      use_XX_YY_ZZ_gates = True, h = None\<rparr> (\<lambda>i. i = 0)
   = Inr [Prim (XGate 0), Prim (ZGate 1), Prim Barrier,
          Instr (zz_gate_mirror 1) [0, 1],
          Instr (yy_gate_mirror 1) [0, 1],
          Instr (xx_gate_mirror 1) [0, 1],
          Prim Barrier,
          Prim (RZGate 0 0), Prim (RZGate 0 1),
          Prim (RXGate 0 0), Prim (RXGate 0 1),
          Prim Barrier,
          Instr [XGate 0, XGate 1, Barrier] [0, 1]]"
  using quasi_inverse_separate_axis
    [of "\<lparr>n_spins = 2, K = 1, t = 1, tau = 1, w = 1, h_x = [0, 0], h_z = [0, 0],
          use_XX_YY_ZZ_gates = True, h = None\<rparr>" "\<lambda>i. i = 0"]
  by (simp add: py_range_def upt_rec)

text \<open>
  C8: the resultant state that ends the quasi-inverse is one \<open>x\<close> gate on every qubit (and a
  barrier), whatever tags were drawn.
\<close>

theorem resultant_state_twirl_independent:
  assumes "n_spins kn \<le> length (h_x kn)" and "n_spins kn \<le> length (h_z kn)"
    and "0 < n_spins kn" and "0 < K kn"
  shows "ResultantPauli kn = map XGate [0..<n_spins kn] @ [Barrier] \<and>
     (\<forall>draws. \<exists>body.
        heisenberg_create_quasi_inverse_hamiltonian kn draws =
          Inr (body @ [Instr (map XGate [0..<n_spins kn] @ [Barrier]) [0..<n_spins kn]]))"
proof (intro conjI allI)
  show "ResultantPauli kn = map XGate [0..<n_spins kn] @ [Barrier]"
    by (simp add: ResultantPauli_def)
next
  fix draws
  show "\<exists>body. heisenberg_create_quasi_inverse_hamiltonian kn draws =
          Inr (body @ [Instr (map XGate [0..<n_spins kn] @ [Barrier]) [0..<n_spins kn]])"
  proof (cases "use_XX_YY_ZZ_gates kn")
    case True
    have "heisenberg_create_quasi_inverse_hamiltonian kn draws =
         Inr ((twirl_gates (random_paulis_list kn draws) @ [Prim Barrier] @
               concat (replicate (K kn) (quasi_separate_step kn))) @
              [Instr (map XGate [0..<n_spins kn] @ [Barrier]) [0..<n_spins kn]])"
      using heisenberg_quasi_separate [OF True assms(1,2), of draws]
      by (simp add: ResultantPauli_def)
    then show ?thesis by blast
  next
    case False
    have "heisenberg_create_quasi_inverse_hamiltonian kn draws =
         Inr ((twirl_gates (random_paulis_list kn draws) @ [Prim Barrier] @
               quasi_first_step kn (random_paulis_list kn draws) @
               concat (replicate (K kn - 1) (heisenberg_inverse_step kn))) @
              [Instr (map XGate [0..<n_spins kn] @ [Barrier]) [0..<n_spins kn]])"
      using heisenberg_quasi_fused [OF False assms, of draws]
      by (simp add: ResultantPauli_def)
    then show ?thesis by blast
  qed
qed

theorem resultant_state_twirl_independent_witness:
  "(2 \<le> length [0, 0::real] \<and> 2 \<le> length [0, 0::real] \<and> (0::nat) < 2 \<and> (0::nat) < 1) \<and>
   (\<forall>draws. \<exists>body.
      heisenberg_create_quasi_inverse_hamiltonian
        \<lparr>n_spins = 2, K = 1, t = 1, tau = 1, w = 1, h_x = [0, 0], h_z = [0, 0],
         use_XX_YY_ZZ_gates = False, h = None\<rparr> draws
      = Inr (body @ [Instr [XGate 0, XGate 1, Barrier] [0, 1]]))"
  using resultant_state_twirl_independent
    [of "\<lparr>n_spins = 2, K = 1, t = 1, tau = 1, w = 1, h_x = [0, 0], h_z = [0, 0],
          use_XX_YY_ZZ_gates = False, h = None\<rparr>"]
  by (simp add: upt_rec)

section \<open>The quasi-mirror block\<close>

text \<open>
  C7: for tags among \<open>x\<close> and \<open>z\<close> the quasi-mirror block is, on qubit 0, \<open>h, z, rx(pi/2), h\<close>
  for the tag \<open>x\<close> and \<open>h, x, rx(pi/2), h\<close> for the tag \<open>z\<close>; on qubit 1 the bare \<open>x\<close> or \<open>z\<close>
  gate of the second tag; then the mirror block without its leading \<open>rz(pi/2)\<close> on qubit 0.
\<close>

theorem quasi_mirror_block_structure:
  assumes "pauli1 = ''x'' \<or> pauli1 = ''z''" and "pauli2 = ''x'' \<or> pauli2 = ''z''"
  shows "xxyyzz_opt_gate_quasi_mirror ta pauli1 pauli2 =
           (if pauli1 = ''x'' then [HGate 0, ZGate 0, RXGate (pi / 2) 0, HGate 0]
            else [HGate 0, XGate 0, RXGate (pi / 2) 0, HGate 0]) @
           [if pauli2 = ''x'' then XGate 1 else ZGate 1] @
           tl (xxyyzz_opt_gate_mirror ta)
         \<and> hd (xxyyzz_opt_gate_mirror ta) = RZGate (pi / 2) 0"
  using assms
  by (auto simp: xxyyzz_opt_gate_quasi_mirror_def xxyyzz_opt_gate_mirror_def Let_def)

theorem quasi_mirror_block_structure_witness:
  "((''x'' = ''x'' \<or> ''x'' = ''z'') \<and> (''z'' = ''x'' \<or> ''z'' = ''z'')) \<and>
   xxyyzz_opt_gate_quasi_mirror 1 ''x'' ''z'' =
     [HGate 0, ZGate 0, RXGate (pi / 2) 0, HGate 0, ZGate 1] @ tl (xxyyzz_opt_gate_mirror 1)"
  using quasi_mirror_block_structure [of "''x''" "''z''" 1]
  by simp

section \<open>The mirror of the fused block\<close>

text \<open>
  C9: for every angle the fused block followed by its mirror block is the identity
  operator, and so is the mirror block followed by the fused block: the mirror block is
  the inverse, hence the adjoint, of the fused block. The equality is exact, the global
  phase is 1.
\<close>

theorem mirror_block_undoes_fused_block:
  "run_gates (xxyyzz_opt_gate ta @ xxyyzz_opt_gate_mirror ta) psi = psi
   \<and> run_gates (xxyyzz_opt_gate_mirror ta @ xxyyzz_opt_gate ta) psi = psi"
proof
  have "list_all distinct_qubits (xxyyzz_opt_gate ta)"
    by (simp add: xxyyzz_opt_gate_def Let_def)
  then show "run_gates (xxyyzz_opt_gate ta @ xxyyzz_opt_gate_mirror ta) psi = psi"
    unfolding mirror_is_adjoint by (rule run_gates_adjoint)
next
  have "list_all distinct_qubits (xxyyzz_opt_gate_mirror ta)"
    by (simp add: xxyyzz_opt_gate_mirror_def Let_def)
  then have "run_gates (xxyyzz_opt_gate_mirror ta @ adjoint (xxyyzz_opt_gate_mirror ta)) psi = psi"
    by (rule run_gates_adjoint)
  then show "run_gates (xxyyzz_opt_gate_mirror ta @ xxyyzz_opt_gate ta) psi = psi"
    by (simp only: fused_is_adjoint [symmetric])
qed

section \<open>The forward circuit followed by the exact inverse\<close>

text \<open>
  C1: for every \<open>n_spins\<close> and \<open>K\<close>, so in particular for \<open>n_spins\<close> in 2, 4, 5, 6 and \<open>K\<close> in
  1, 2, 3, the gates of \<open>create_hamiltonian\<close> followed by the gates of
  \<open>create_inverse_hamiltonian\<close> leave every state as it is. This holds for the Heisenberg
  model in the fused and in the separate-axis mode (the flag is a field of the kernel) when
  the field arrays are long enough for both builders to return, and for the TFIM model,
  whose inverse is built on the kernel that \<open>create_hamiltonian\<close> leaves. The equality is
  exact, the global phase is 1.
\<close>

theorem forward_then_inverse_is_identity:
  "(n_spins kn \<le> length (h_x kn) \<and> n_spins kn \<le> length (h_z kn) \<longrightarrow>
      (\<exists>fwd inv. heisenberg_create_hamiltonian kn = Inr fwd \<and>
                 heisenberg_create_inverse_hamiltonian kn = Inr inv \<and>
                 (\<forall>psi. run (fwd @ inv) psi = psi)))
   \<and> (\<exists>inv. tfim_create_inverse_hamiltonian (snd (tfim_create_hamiltonian kn)) = Inr inv \<and>
            (\<forall>psi. run (fst (tfim_create_hamiltonian kn) @ inv) psi = psi))"
proof (intro conjI impI)
  assume a: "n_spins kn \<le> length (h_x kn) \<and> n_spins kn \<le> length (h_z kn)"
  have f: "heisenberg_create_hamiltonian kn = Inr (concat (replicate (K kn) (heisenberg_step kn)))"
    using a by (simp add: heisenberg_create_hamiltonian_ok)
  have i: "heisenberg_create_inverse_hamiltonian kn =
           Inr (concat (replicate (K kn) (heisenberg_inverse_step kn)))"
    using a by (simp add: heisenberg_create_inverse_hamiltonian_ok)
  have "run (concat (replicate (K kn) (heisenberg_step kn)) @
             concat (replicate (K kn) (heisenberg_inverse_step kn))) psi = psi" for psi
    by (rule run_replicate_cancel) (rule heisenberg_step_cancel)
  with f i show "\<exists>fwd inv. heisenberg_create_hamiltonian kn = Inr fwd \<and>
                 heisenberg_create_inverse_hamiltonian kn = Inr inv \<and>
                 (\<forall>psi. run (fwd @ inv) psi = psi)"
    by blast
next
  let ?kn = "kn\<lparr>h := Some 0.2\<rparr>"
  have f: "tfim_create_hamiltonian kn = (concat (replicate (K kn) (tfim_step kn)), ?kn)"
    by (rule tfim_create_hamiltonian_eq)
  have "tfim_create_inverse_hamiltonian ?kn =
        Inr (concat (replicate (K ?kn) (tfim_inverse_step ?kn 0.2)))"
    by (rule tfim_create_inverse_hamiltonian_ok) simp
  then have i: "tfim_create_inverse_hamiltonian (snd (tfim_create_hamiltonian kn)) =
        Inr (concat (replicate (K kn) (tfim_inverse_step ?kn 0.2)))"
    by (simp add: f)
  have "run (concat (replicate (K kn) (tfim_step kn)) @
             concat (replicate (K kn) (tfim_inverse_step ?kn 0.2))) psi = psi" for psi
    by (rule run_replicate_cancel) (rule tfim_step_cancel)
  then have "\<forall>psi. run (fst (tfim_create_hamiltonian kn) @
             concat (replicate (K kn) (tfim_inverse_step ?kn 0.2))) psi = psi"
    by (simp add: f)
  with i show "\<exists>inv. tfim_create_inverse_hamiltonian (snd (tfim_create_hamiltonian kn)) = Inr inv \<and>
            (\<forall>psi. run (fst (tfim_create_hamiltonian kn) @ inv) psi = psi)"
    by blast
qed

theorem forward_then_inverse_is_identity_witness:
  "(2 \<le> length [1, 1::real] \<and> 2 \<le> length [1, 1::real]) \<and>
   heisenberg_create_hamiltonian
     \<lparr>n_spins = 2, K = 1, t = 1, tau = 1, w = 1, h_x = [1, 1], h_z = [1, 1],
      use_XX_YY_ZZ_gates = False, h = None\<rparr>
   = Inr [Prim (RXGate 2 0), Prim (RXGate 2 1), Prim (RZGate 2 0), Prim (RZGate 2 1),
          Prim Barrier, Instr (xxyyzz_opt_gate 1) [0, 1], Prim Barrier] \<and>
   heisenberg_create_inverse_hamiltonian
     \<lparr>n_spins = 2, K = 1, t = 1, tau = 1, w = 1, h_x = [1, 1], h_z = [1, 1],
      use_XX_YY_ZZ_gates = False, h = None\<rparr>
   = Inr [Instr (xxyyzz_opt_gate_mirror 1) [0, 1], Prim Barrier,
          Prim (RZGate (- 2) 0), Prim (RZGate (- 2) 1),
          Prim (RXGate (- 2) 0), Prim (RXGate (- 2) 1), Prim Barrier] \<and>
   (\<forall>psi. run ([Prim (RXGate 2 0), Prim (RXGate 2 1), Prim (RZGate 2 0), Prim (RZGate 2 1),
                Prim Barrier, Instr (xxyyzz_opt_gate 1) [0, 1], Prim Barrier] @
               [Instr (xxyyzz_opt_gate_mirror 1) [0, 1], Prim Barrier,
                Prim (RZGate (- 2) 0), Prim (RZGate (- 2) 1),
                Prim (RXGate (- 2) 0), Prim (RXGate (- 2) 1), Prim Barrier]) psi = psi)"
proof -
  let ?kn = "\<lparr>n_spins = 2, K = 1, t = 1, tau = 1, w = 1, h_x = [1, 1], h_z = [1, 1],
      use_XX_YY_ZZ_gates = False, h = None\<rparr>"
  have f: "heisenberg_create_hamiltonian ?kn
     = Inr [Prim (RXGate 2 0), Prim (RXGate 2 1), Prim (RZGate 2 0), Prim (RZGate 2 1),
          Prim Barrier, Instr (xxyyzz_opt_gate 1) [0, 1], Prim Barrier]"
    by (simp add: heisenberg_create_hamiltonian_def local_rotations_def lookup_def py_get_def
        coupling_loop_def py_range_def upt_rec)
  have i: "heisenberg_create_inverse_hamiltonian ?kn
     = Inr [Instr (xxyyzz_opt_gate_mirror 1) [0, 1], Prim Barrier,
          Prim (RZGate (- 2) 0), Prim (RZGate (- 2) 1),
          Prim (RXGate (- 2) 0), Prim (RXGate (- 2) 1), Prim Barrier]"
    by (simp add: heisenberg_create_inverse_hamiltonian_def local_rotations_def lookup_def
        py_get_def coupling_loop_reversed_def py_range_def upt_rec)
  have "\<exists>fwd inv. heisenberg_create_hamiltonian ?kn = Inr fwd \<and>
                 heisenberg_create_inverse_hamiltonian ?kn = Inr inv \<and>
                 (\<forall>psi. run (fwd @ inv) psi = psi)"
    using forward_then_inverse_is_identity [of ?kn] by simp
  then show ?thesis
    unfolding f i by simp
qed

end
